theory Spec2Isabelle
  imports Complex_Main "HOL-Library.Monad_Syntax" "HOL-Library.AList"
begin

section \<open>The Analyst of AffectiveSE/ADTA: streaming statistics and event detection\<close>

text \<open>
  This theory embeds \<^verbatim>\<open>src/src/analysis/analyst.py\<close> (class \<^verbatim>\<open>Analyst\<close>) and
  \<^verbatim>\<open>config.py\<close> (\<^verbatim>\<open>AnalysisConing.DELAY\<close>).

  Conventions of the embedding:
  \<^item> numpy's float64 and Python's float are idealised as \<^typ>\<open>real\<close>: rounding, NaN and
    infinities are outside the model;
  \<^item> a raised \<^verbatim>\<open>IndexError\<close> is the value \<open>None\<close> of an option type (it is the only
    exception the embedded code handles or can raise on its own indexing);
  \<^item> the mutable object \<^verbatim>\<open>self\<close> is a record passed in and returned updated;
  \<^item> a \<^verbatim>\<open>timedelta\<close> is its \<^verbatim>\<open>total_seconds()\<close>, a \<^typ>\<open>real\<close>.
\<close>

subsection \<open>ValenceArousal\<close>

text \<open>
  Modelled from the spec: \<^verbatim>\<open>src/utils\<close> (\<^verbatim>\<open>ValenceArousal\<close>) is not among the sources.
  The spec gives an immutable 2-vector (valence, arousal) with elementwise addition,
  subtraction, multiplication and division, by another vector or by a scalar.
\<close>

datatype ValenceArousal = ValenceArousal (valence: real) (arousal: real)

definition va_add :: "ValenceArousal \<Rightarrow> ValenceArousal \<Rightarrow> ValenceArousal" where
  "va_add p q = ValenceArousal (valence p + valence q) (arousal p + arousal q)"

definition va_sub :: "ValenceArousal \<Rightarrow> ValenceArousal \<Rightarrow> ValenceArousal" where
  "va_sub p q = ValenceArousal (valence p - valence q) (arousal p - arousal q)"

definition va_mul :: "ValenceArousal \<Rightarrow> ValenceArousal \<Rightarrow> ValenceArousal" where
  "va_mul p q = ValenceArousal (valence p * valence q) (arousal p * arousal q)"

definition va_scale :: "ValenceArousal \<Rightarrow> real \<Rightarrow> ValenceArousal" where
  "va_scale p c = ValenceArousal (valence p * c) (arousal p * c)"

definition va_div :: "ValenceArousal \<Rightarrow> real \<Rightarrow> ValenceArousal" where
  "va_div p c = ValenceArousal (valence p / c) (arousal p / c)"

text \<open>A numpy universal function (\<^verbatim>\<open>np.sqrt\<close>, \<^verbatim>\<open>np.exp\<close>) acts on each component.\<close>

definition va_map :: "(real \<Rightarrow> real) \<Rightarrow> ValenceArousal \<Rightarrow> ValenceArousal" where
  "va_map f p = ValenceArousal (f (valence p)) (f (arousal p))"

subsection \<open>Buffer and the numpy reductions\<close>

text \<open>
  Modelled from the spec: \<^verbatim>\<open>src/utils\<close> (\<^verbatim>\<open>Buffer\<close>) is not among the sources. The spec
  gives an append-only ordered sequence that keeps its whole history: a list, with
  \<^verbatim>\<open>append\<close> as \<open>xs @ [x]\<close>, \<^verbatim>\<open>len\<close> as \<^const>\<open>length\<close>, \<^verbatim>\<open>is_empty\<close> as \<open>xs = []\<close> and
  \<^verbatim>\<open>np()\<close> as the list itself, read as an array with one row per element, column 0 the
  valence and column 1 the arousal. Indexing accepts negative indices and raises
  \<^verbatim>\<open>IndexError\<close> out of range; \<^verbatim>\<open>last(n)\<close> is the final \<open>min n (length xs)\<close> elements.
  A one-dimensional numpy array is indexed in the same way.
\<close>

definition Buffer_getitem :: "'a list \<Rightarrow> int \<Rightarrow> 'a option" where
  "Buffer_getitem xs i =
     (if 0 \<le> i \<and> i < int (length xs) then Some (xs ! nat i)
      else if i < 0 \<and> - int (length xs) \<le> i then Some (xs ! nat (int (length xs) + i))
      else None)"

definition Buffer_last :: "'a list \<Rightarrow> nat \<Rightarrow> 'a list" where
  "Buffer_last xs n = drop (length xs - n) xs"

text \<open>
  \<^verbatim>\<open>np.mean(a, axis=0)\<close>, \<^verbatim>\<open>np.var(a, axis=0)\<close> and \<^verbatim>\<open>np.std(a, axis=0)\<close> reduce each
  column on its own; the variance is the population variance (numpy's default
  \<^verbatim>\<open>ddof=0\<close>). On an empty array numpy yields NaN, which \<^typ>\<open>real\<close> does not have: the
  Analyst reduces a buffer only after appending to it.
\<close>

definition np_mean :: "ValenceArousal list \<Rightarrow> ValenceArousal" where
  "np_mean xs = ValenceArousal (sum_list (map valence xs) / real (length xs))
                               (sum_list (map arousal xs) / real (length xs))"

definition np_var :: "ValenceArousal list \<Rightarrow> ValenceArousal" where
  "np_var xs = (let m = np_mean xs
                in np_mean (map (\<lambda>x. va_mul (va_sub x m) (va_sub x m)) xs))"

definition np_std :: "ValenceArousal list \<Rightarrow> ValenceArousal" where
  "np_std xs = va_map sqrt (np_var xs)"

subsection \<open>Activator and the dictionary of intersections\<close>

text \<open>
  Modelled from the spec: \<^verbatim>\<open>activator.py\<close> is not among the sources. The spec gives
  the closed set of six kinds; the callers in \<^verbatim>\<open>analyst.py\<close> use exactly these names.
\<close>

datatype Activator =
    global_deviation
  | local_deviation
  | global_sigmoid_deviation
  | local_sigmoid_deviation
  | global_rapid_deprecation
  | local_rapid_deprecation

text \<open>
  \<^verbatim>\<open>self._intersections\<close> is a \<^verbatim>\<open>defaultdict(list)\<close>. A Python dictionary keeps its
  keys in insertion order, and the property \<^verbatim>\<open>events\<close> reads them in that order, so
  the dictionary is an association list. Reading a missing key of a
  \<^verbatim>\<open>defaultdict\<close> inserts it with an empty list: \<open>dd_getitem\<close> returns the value and
  the dictionary after the read.
\<close>

type_synonym intersections_dict = "(Activator \<times> real list) list"

definition dd_getitem :: "intersections_dict \<Rightarrow> Activator \<Rightarrow> real list \<times> intersections_dict" where
  "dd_getitem d k = (case map_of d k of Some ts \<Rightarrow> (ts, d) | None \<Rightarrow> ([], d @ [(k, [])]))"

definition dd_append :: "intersections_dict \<Rightarrow> Activator \<Rightarrow> real \<Rightarrow> intersections_dict" where
  "dd_append d k t = (case dd_getitem d k of (ts, d') \<Rightarrow> AList.update k (ts @ [t]) d')"

text \<open>The timeline of a kind: the list stored under it, empty when the key is absent.\<close>

definition timeline :: "intersections_dict \<Rightarrow> Activator \<Rightarrow> real list" where
  "timeline d k = (case map_of d k of Some ts \<Rightarrow> ts | None \<Rightarrow> [])"

subsection \<open>The Analyst's state\<close>

text \<open>
  One field per attribute set by \<^verbatim>\<open>__init__\<close>, without the leading underscores;
  \<^verbatim>\<open>__v\<close> and \<^verbatim>\<open>__a\<close> are \<open>priv_v\<close> and \<open>priv_a\<close>, and the two buffers that share their
  name with a method carry the suffix \<open>_buf\<close>.
\<close>

record Analyst =
  sensitivity :: real
  moving_average_size :: nat
  derivative_moving_average_size :: nat
  priv_v :: "real list"
  priv_a :: "real list"
  va_buffer :: "ValenceArousal list"
  number_of_reads :: nat
  intersections :: intersections_dict
  va_moving_average_buf :: "ValenceArousal list"
  last_deviation_read :: nat
  va_mean_local_buffer :: "ValenceArousal list"
  va_std_local_buffer :: "ValenceArousal list"
  va_mean_global_buffer :: "ValenceArousal list"
  va_variance_global_buffer :: "ValenceArousal list"
  va_std_global_buffer :: "ValenceArousal list"
  derivative_buffer :: "ValenceArousal list"
  derivative_moving_average_buf :: "ValenceArousal list"
  local_derivative_mean :: "ValenceArousal list"
  local_derivative_std :: "ValenceArousal list"
  global_derivative_mean :: "ValenceArousal list"
  global_derivative_variance :: "ValenceArousal list"
  global_derivative_std :: "ValenceArousal list"

text \<open>
  \<^verbatim>\<open>Analyst.__init__\<close>. The window sizes are counts of readings, so natural numbers;
  what \<^verbatim>\<open>Buffer.last\<close> does with a negative size is not specified.
\<close>

definition init :: "real \<Rightarrow> nat \<Rightarrow> nat \<Rightarrow> Analyst" where
  "init sens mas dmas =
     \<lparr> sensitivity = sens, moving_average_size = mas, derivative_moving_average_size = dmas,
       priv_v = [], priv_a = [], va_buffer = [], number_of_reads = 0, intersections = [],
       va_moving_average_buf = [], last_deviation_read = 0,
       va_mean_local_buffer = [], va_std_local_buffer = [],
       va_mean_global_buffer = [], va_variance_global_buffer = [], va_std_global_buffer = [],
       derivative_buffer = [], derivative_moving_average_buf = [],
       local_derivative_mean = [], local_derivative_std = [],
       global_derivative_mean = [], global_derivative_variance = [],
       global_derivative_std = [] \<rparr>"

text \<open>\<^verbatim>\<open>Analyst.events\<close>: the dictionary flattened, key by key in insertion order.\<close>

definition events :: "Analyst \<Rightarrow> (real \<times> Activator) list" where
  "events s = concat (map (\<lambda>(act, times). map (\<lambda>t. (t, act)) times) (intersections s))"

subsection \<open>Statistics\<close>

definition va_moving_average :: "Analyst \<Rightarrow> nat \<Rightarrow> ValenceArousal" where
  "va_moving_average s window_size = np_mean (Buffer_last (va_buffer s) window_size)"

definition va_mean :: "Analyst \<Rightarrow> ValenceArousal list \<Rightarrow> ValenceArousal \<Rightarrow> ValenceArousal option" where
  "va_mean s mean va =
     (if mean = [] then Some va
      else do {
        m \<leftarrow> Buffer_getitem mean (- 1);
        let va_mean1 = va_scale m (real (number_of_reads s));
        let va_mean2 = va_add va_mean1 va;
        Some (va_div va_mean2 (real (number_of_reads s + 1)))
      })"

definition va_variance ::
  "Analyst \<Rightarrow> ValenceArousal list \<Rightarrow> ValenceArousal list \<Rightarrow> ValenceArousal \<Rightarrow> ValenceArousal option" where
  "va_variance s variance mean va =
     (if length mean < 2 then Some (np_var (va_buffer s))
      else do {
        v \<leftarrow> Buffer_getitem variance (- 1);
        let va_variance1 = va_scale v (real (number_of_reads s));
        m1 \<leftarrow> Buffer_getitem mean (- 1);
        m2 \<leftarrow> Buffer_getitem mean (- 2);
        let va_variance2 = va_add va_variance1 (va_mul (va_sub va m1) (va_sub va m2));
        Some (va_div va_variance2 (real (number_of_reads s + 1)))
      })"

definition va_std :: "Analyst \<Rightarrow> ValenceArousal list \<Rightarrow> ValenceArousal option" where
  "va_std s variance = do { v \<leftarrow> Buffer_getitem variance (- 1); Some (va_map sqrt v) }"

definition sigmoid :: "real \<Rightarrow> real" where
  "sigmoid x = (2 / (1 + exp ((- x) * 2.2))) - 1"

text \<open>
  The thresholds subtract two arrays row by row. Inside the Analyst both arrays always
  have one row per reading (lemma \<open>run_tracks\<close> below), which is the case modelled:
  numpy's broadcasting and its error on arrays of different lengths are not.
\<close>

definition deviation_threshold :: "Analyst \<Rightarrow> ValenceArousal list \<Rightarrow> ValenceArousal list" where
  "deviation_threshold s std_buffer =
     map2 va_sub (va_mean_local_buffer s) (map (\<lambda>x. va_scale x (sensitivity s)) std_buffer)"

definition sigmoid_threshold :: "Analyst \<Rightarrow> ValenceArousal list \<Rightarrow> ValenceArousal list" where
  "sigmoid_threshold s std_buffer =
     map (va_map sigmoid)
       (map2 va_sub (va_mean_local_buffer s) (map (\<lambda>x. va_scale x (sensitivity s)) std_buffer))"

definition derivative :: "Analyst \<Rightarrow> ValenceArousal option" where
  "derivative s =
     (if length (va_buffer s) < 2 then Some (ValenceArousal 0 0)
      else do {
        a \<leftarrow> Buffer_getitem (va_buffer s) (- 1);
        b \<leftarrow> Buffer_getitem (va_buffer s) (- 2);
        Some (va_sub a b)
      })"

definition derivative_moving_average :: "Analyst \<Rightarrow> nat \<Rightarrow> ValenceArousal" where
  "derivative_moving_average s window_size = np_mean (Buffer_last (derivative_buffer s) window_size)"

definition derivative_threshold :: "Analyst \<Rightarrow> ValenceArousal list \<Rightarrow> ValenceArousal list" where
  "derivative_threshold s std_buffer =
     map2 va_sub (local_derivative_mean s) (map (\<lambda>x. va_scale x (sensitivity s)) std_buffer)"

subsection \<open>Crossing detection\<close>

text \<open>
  \<^verbatim>\<open>is_intersection\<close>: the body of the \<^verbatim>\<open>try\<close> is the option computation; the
  \<^verbatim>\<open>except IndexError: pass\<close> and the final \<^verbatim>\<open>return False\<close> are the \<open>None\<close> case.
\<close>

definition is_intersection :: "real list \<Rightarrow> real list \<Rightarrow> bool" where
  "is_intersection values_1 values_2 =
     (case do {
             a1 \<leftarrow> Buffer_getitem values_1 (- 1);
             b1 \<leftarrow> Buffer_getitem values_2 (- 1);
             if a1 < b1 then do {
               a2 \<leftarrow> Buffer_getitem values_1 (- 2);
               b2 \<leftarrow> Buffer_getitem values_2 (- 2);
               if a2 > b2 then Some True else Some False
             } else Some False
           }
      of Some r \<Rightarrow> r | None \<Rightarrow> False)"

definition DELAY :: real where
  "DELAY = 30"

text \<open>
  The local function \<^verbatim>\<open>add_intersect\<close> of \<^verbatim>\<open>find_intersections\<close>, with the captured
  \<^verbatim>\<open>_time\<close> and the dictionary as arguments. Python's \<^verbatim>\<open>not check_oddity or ...\<close> reads
  the dictionary only when \<^verbatim>\<open>check_oddity\<close> holds.
\<close>

definition add_intersect ::
  "real \<Rightarrow> real list \<Rightarrow> real list \<Rightarrow> Activator \<Rightarrow> bool \<Rightarrow> intersections_dict \<Rightarrow> intersections_dict" where
  "add_intersect t data_line control_line activator check_oddity d =
     (case (if check_oddity
            then (case dd_getitem d activator of (ts, d') \<Rightarrow> (length ts mod 2 = 1, d'))
            else (True, d))
      of (go, d1) \<Rightarrow>
        if go then (if is_intersection data_line control_line then dd_append d1 activator t else d1)
        else d1)"

definition find_intersections :: "Analyst \<Rightarrow> real \<Rightarrow> Analyst" where
  "find_intersections s t =
     (if t < DELAY then s
      else
        let deviation_line = map valence (va_moving_average_buf s);
            derivative_line = map valence (derivative_moving_average_buf s);
            global_v_std = map valence (deviation_threshold s (va_std_global_buffer s));
            local_v_std = map valence (deviation_threshold s (va_std_local_buffer s));
            s_global_v_std = map valence (sigmoid_threshold s (va_std_global_buffer s));
            s_local_v_std = map valence (sigmoid_threshold s (va_std_local_buffer s));
            global_v_dv_std = map valence (derivative_threshold s (global_derivative_std s));
            local_v_dv_std = map valence (derivative_threshold s (local_derivative_std s));
            d = intersections s;
            d = add_intersect t deviation_line global_v_std global_deviation False d;
            d = add_intersect t deviation_line local_v_std local_deviation False d;
            d = add_intersect t deviation_line s_global_v_std global_sigmoid_deviation False d;
            d = add_intersect t deviation_line s_local_v_std local_sigmoid_deviation False d;
            d = add_intersect t derivative_line global_v_dv_std global_rapid_deprecation False d;
            d = add_intersect t derivative_line local_v_dv_std local_rapid_deprecation False d;
            d = add_intersect t global_v_std deviation_line global_deviation True d;
            d = add_intersect t local_v_std deviation_line local_deviation True d;
            d = add_intersect t s_global_v_std deviation_line global_sigmoid_deviation True d;
            d = add_intersect t s_local_v_std deviation_line local_sigmoid_deviation True d
        in s\<lparr>intersections := d\<rparr>)"

subsection \<open>Ingestion\<close>

text \<open>
  \<^verbatim>\<open>add_inference_result\<close>, lines 66 to 96: every append in the order of the source, each
  reading the state the appends before it left. \<open>None\<close> is an \<^verbatim>\<open>IndexError\<close> escaping.
\<close>

definition refresh_statistics :: "Analyst \<Rightarrow> ValenceArousal \<Rightarrow> Analyst option" where
  "refresh_statistics s0 valence_arousal = do {
     let s = s0\<lparr>priv_v := priv_v s0 @ [valence valence_arousal]\<rparr>;
     let s = s\<lparr>priv_a := priv_a s @ [arousal valence_arousal]\<rparr>;
     let s = s\<lparr>va_buffer := va_buffer s @ [valence_arousal]\<rparr>;
     let s = s\<lparr>va_moving_average_buf :=
                va_moving_average_buf s @ [va_moving_average s (moving_average_size s)]\<rparr>;
     let s = s\<lparr>va_mean_local_buffer := va_mean_local_buffer s @ [np_mean (va_buffer s)]\<rparr>;
     let s = s\<lparr>va_std_local_buffer := va_std_local_buffer s @ [np_std (va_buffer s)]\<rparr>;
     m \<leftarrow> va_mean s (va_mean_global_buffer s) valence_arousal;
     let s = s\<lparr>va_mean_global_buffer := va_mean_global_buffer s @ [m]\<rparr>;
     v \<leftarrow> va_variance s (va_variance_global_buffer s) (va_mean_global_buffer s) valence_arousal;
     let s = s\<lparr>va_variance_global_buffer := va_variance_global_buffer s @ [v]\<rparr>;
     sd \<leftarrow> va_std s (va_variance_global_buffer s);
     let s = s\<lparr>va_std_global_buffer := va_std_global_buffer s @ [sd]\<rparr>;
     dv \<leftarrow> derivative s;
     let s = s\<lparr>derivative_buffer := derivative_buffer s @ [dv]\<rparr>;
     let s = s\<lparr>derivative_moving_average_buf :=
                derivative_moving_average_buf s
                  @ [derivative_moving_average s (derivative_moving_average_size s)]\<rparr>;
     let s = s\<lparr>local_derivative_mean := local_derivative_mean s @ [np_mean (derivative_buffer s)]\<rparr>;
     let s = s\<lparr>local_derivative_std := local_derivative_std s @ [np_std (derivative_buffer s)]\<rparr>;
     dv1 \<leftarrow> derivative s;
     dm \<leftarrow> va_mean s (global_derivative_mean s) dv1;
     let s = s\<lparr>global_derivative_mean := global_derivative_mean s @ [dm]\<rparr>;
     dv2 \<leftarrow> derivative s;
     dvar \<leftarrow> va_variance s (global_derivative_variance s) (global_derivative_mean s) dv2;
     let s = s\<lparr>global_derivative_variance := global_derivative_variance s @ [dvar]\<rparr>;
     dsd \<leftarrow> va_std s (global_derivative_variance s);
     let s = s\<lparr>global_derivative_std := global_derivative_std s @ [dsd]\<rparr>;
     Some (s\<lparr>number_of_reads := number_of_reads s + 1\<rparr>)
   }"

text \<open>\<^verbatim>\<open>add_inference_result\<close>: the appends above, then line 97.\<close>

definition add_inference_result :: "Analyst \<Rightarrow> ValenceArousal \<Rightarrow> real \<Rightarrow> Analyst option" where
  "add_inference_result s valence_arousal t = do {
     s' \<leftarrow> refresh_statistics s valence_arousal;
     Some (find_intersections s' t)
   }"

text \<open>A session: the readings and their timestamps, ingested in order.\<close>

fun run :: "Analyst \<Rightarrow> (ValenceArousal \<times> real) list \<Rightarrow> Analyst option" where
  "run s [] = Some s"
| "run s ((va, t) # rest) = do { s' \<leftarrow> add_inference_result s va t; run s' rest }"

section \<open>Observing the detections\<close>

text \<open>
  The source stores bare timestamps. To speak of which test appended an entry, the
  appends of one call of \<^verbatim>\<open>find_intersections\<close> are listed per kind, in the order of
  the calls of \<^verbatim>\<open>add_intersect\<close>, each marked with the test that made it: \<open>Opening\<close>
  for the calls under "Intersections from above" and \<open>Closing\<close> for those under
  "Intersections from bottom". \<open>data_line\<close> and \<open>control_line\<close> are the two arguments
  the source passes for each kind; lemma \<open>find_intersections_timeline\<close> ties the list
  to the timestamps the embedded function appends.
\<close>

datatype crossing = Opening | Closing

definition interval_style :: "Activator \<Rightarrow> bool" where
  "interval_style k =
     (case k of global_rapid_deprecation \<Rightarrow> False | local_rapid_deprecation \<Rightarrow> False | _ \<Rightarrow> True)"

definition data_line :: "Analyst \<Rightarrow> Activator \<Rightarrow> real list" where
  "data_line s k =
     (case k of
        global_rapid_deprecation \<Rightarrow> map valence (derivative_moving_average_buf s)
      | local_rapid_deprecation \<Rightarrow> map valence (derivative_moving_average_buf s)
      | _ \<Rightarrow> map valence (va_moving_average_buf s))"

definition control_line :: "Analyst \<Rightarrow> Activator \<Rightarrow> real list" where
  "control_line s k =
     (case k of
        global_deviation \<Rightarrow> map valence (deviation_threshold s (va_std_global_buffer s))
      | local_deviation \<Rightarrow> map valence (deviation_threshold s (va_std_local_buffer s))
      | global_sigmoid_deviation \<Rightarrow> map valence (sigmoid_threshold s (va_std_global_buffer s))
      | local_sigmoid_deviation \<Rightarrow> map valence (sigmoid_threshold s (va_std_local_buffer s))
      | global_rapid_deprecation \<Rightarrow> map valence (derivative_threshold s (global_derivative_std s))
      | local_rapid_deprecation \<Rightarrow> map valence (derivative_threshold s (local_derivative_std s)))"

definition crossings :: "Analyst \<Rightarrow> real \<Rightarrow> Activator \<Rightarrow> (real \<times> crossing) list" where
  "crossings s t k =
     (if t < DELAY then []
      else
        let opened = (if is_intersection (data_line s k) (control_line s k)
                      then [(t, Opening)] else [])
        in opened @
           (if interval_style k \<and> odd (length (timeline (intersections s) k) + length opened) \<and>
               is_intersection (control_line s k) (data_line s k)
            then [(t, Closing)] else []))"

text \<open>
  The appends of a whole session for one kind, in order.
\<close>

fun session_crossings ::
  "Analyst \<Rightarrow> (ValenceArousal \<times> real) list \<Rightarrow> Activator \<Rightarrow> (real \<times> crossing) list" where
  "session_crossings s [] k = []"
| "session_crossings s ((va, t) # rest) k =
     (case refresh_statistics s va of
        None \<Rightarrow> []
      | Some s1 \<Rightarrow> crossings s1 t k @ session_crossings (find_intersections s1 t) rest k)"

section \<open>Definitions used in the proofs\<close>

text \<open>
  The values \<^verbatim>\<open>va_mean\<close>, \<^verbatim>\<open>va_variance\<close> and \<^verbatim>\<open>derivative\<close> return when their indexing
  succeeds.
\<close>

definition next_mean :: "nat \<Rightarrow> ValenceArousal list \<Rightarrow> ValenceArousal \<Rightarrow> ValenceArousal" where
  "next_mean n mean x =
     (if mean = [] then x else va_div (va_add (va_scale (last mean) (real n)) x) (real (n + 1)))"

definition next_variance ::
  "nat \<Rightarrow> ValenceArousal list \<Rightarrow> ValenceArousal list \<Rightarrow> ValenceArousal list \<Rightarrow> ValenceArousal
     \<Rightarrow> ValenceArousal" where
  "next_variance n buf variance mean x =
     (if length mean < 2 then np_var buf
      else va_div (va_add (va_scale (last variance) (real n))
                          (va_mul (va_sub x (last mean)) (va_sub x (mean ! (length mean - 2)))))
                  (real (n + 1)))"

definition diff_last :: "ValenceArousal list \<Rightarrow> ValenceArousal" where
  "diff_last xs = (if length xs < 2 then ValenceArousal 0 0
                   else va_sub (last xs) (xs ! (length xs - 2)))"

text \<open>
  \<open>lens_ok\<close> is what ingestion needs to index safely; \<open>cum f rs\<close> lists \<open>f\<close> of every
  non-empty prefix of \<open>rs\<close>; \<open>tracks\<close> gives the buffers that are recomputed from the
  history in closed form; \<open>incremental\<close> is the recurrence of the one-pass estimator.
\<close>

definition lens_ok :: "Analyst \<Rightarrow> bool" where
  "lens_ok s = (length (va_variance_global_buffer s) = length (va_mean_global_buffer s) \<and>
                length (global_derivative_variance s) = length (global_derivative_mean s))"

definition cum :: "('a list \<Rightarrow> 'b) \<Rightarrow> 'a list \<Rightarrow> 'b list" where
  "cum f rs = map (\<lambda>i. f (take (Suc i) rs)) [0..<length rs]"

definition tracks :: "real \<Rightarrow> nat \<Rightarrow> nat \<Rightarrow> ValenceArousal list \<Rightarrow> Analyst \<Rightarrow> bool" where
  "tracks sens w dw rs s =
     (va_buffer s = rs \<and> number_of_reads s = length rs \<and>
      priv_v s = map valence rs \<and> priv_a s = map arousal rs \<and>
      sensitivity s = sens \<and>
      moving_average_size s = w \<and> derivative_moving_average_size s = dw \<and>
      va_moving_average_buf s = cum (\<lambda>ys. np_mean (Buffer_last ys w)) rs \<and>
      va_mean_local_buffer s = cum np_mean rs \<and>
      va_std_local_buffer s = cum np_std rs \<and>
      derivative_buffer s = cum diff_last rs \<and>
      derivative_moving_average_buf s = cum (\<lambda>ds. np_mean (Buffer_last ds dw)) (cum diff_last rs) \<and>
      local_derivative_mean s = cum np_mean (cum diff_last rs) \<and>
      local_derivative_std s = cum np_std (cum diff_last rs) \<and>
      length (va_mean_global_buffer s) = length rs \<and>
      length (va_variance_global_buffer s) = length rs \<and>
      length (va_std_global_buffer s) = length rs \<and>
      length (global_derivative_mean s) = length rs \<and>
      length (global_derivative_variance s) = length rs \<and>
      length (global_derivative_std s) = length rs)"

definition incremental ::
  "ValenceArousal list \<Rightarrow> ValenceArousal list \<Rightarrow> ValenceArousal list \<Rightarrow> ValenceArousal list \<Rightarrow> bool" where
  "incremental x mean var std =
     (length mean = length x \<and> length var = length x \<and> length std = length x \<and>
      (\<forall>i<length x.
         std ! i = va_map sqrt (var ! i) \<and>
         (if i = 0 then mean ! i = x ! i
          else mean ! i = va_div (va_add (va_scale (mean ! (i - 1)) (real i)) (x ! i)) (real (i + 1)) \<and>
               var ! i = va_div (va_add (va_scale (var ! (i - 1)) (real i))
                                   (va_mul (va_sub (x ! i) (mean ! i)) (va_sub (x ! i) (mean ! (i - 1)))))
                                (real (i + 1)))))"

text \<open>
  The valence column alone: the scalar counterparts of the reductions, and the relation
  of two states that agree on everything detection reads.
\<close>

definition mean1 :: "real list \<Rightarrow> real" where
  "mean1 vs = sum_list vs / real (length vs)"

definition var1 :: "real list \<Rightarrow> real" where
  "var1 vs = mean1 (map (\<lambda>v. (v - mean1 vs) * (v - mean1 vs)) vs)"

definition next_mean1 :: "nat \<Rightarrow> real list \<Rightarrow> real \<Rightarrow> real" where
  "next_mean1 n mean x = (if mean = [] then x else (last mean * real n + x) / real (n + 1))"

definition next_variance1 :: "nat \<Rightarrow> real list \<Rightarrow> real list \<Rightarrow> real list \<Rightarrow> real \<Rightarrow> real" where
  "next_variance1 n buf variance mean x =
     (if length mean < 2 then var1 buf
      else (last variance * real n + (x - last mean) * (x - mean ! (length mean - 2))) / real (n + 1))"

definition diff_last1 :: "real list \<Rightarrow> real" where
  "diff_last1 xs = (if length xs < 2 then 0 else last xs - xs ! (length xs - 2))"

definition veq :: "Analyst \<Rightarrow> Analyst \<Rightarrow> bool" where
  "veq s s' =
     (sensitivity s = sensitivity s' \<and>
      moving_average_size s = moving_average_size s' \<and>
      derivative_moving_average_size s = derivative_moving_average_size s' \<and>
      number_of_reads s = number_of_reads s' \<and>
      intersections s = intersections s' \<and>
      map valence (va_buffer s) = map valence (va_buffer s') \<and>
      map valence (va_moving_average_buf s) = map valence (va_moving_average_buf s') \<and>
      map valence (va_mean_local_buffer s) = map valence (va_mean_local_buffer s') \<and>
      map valence (va_std_local_buffer s) = map valence (va_std_local_buffer s') \<and>
      map valence (va_mean_global_buffer s) = map valence (va_mean_global_buffer s') \<and>
      map valence (va_variance_global_buffer s) = map valence (va_variance_global_buffer s') \<and>
      map valence (va_std_global_buffer s) = map valence (va_std_global_buffer s') \<and>
      map valence (derivative_buffer s) = map valence (derivative_buffer s') \<and>
      map valence (derivative_moving_average_buf s) = map valence (derivative_moving_average_buf s') \<and>
      map valence (local_derivative_mean s) = map valence (local_derivative_mean s') \<and>
      map valence (local_derivative_std s) = map valence (local_derivative_std s') \<and>
      map valence (global_derivative_mean s) = map valence (global_derivative_mean s') \<and>
      map valence (global_derivative_variance s) = map valence (global_derivative_variance s') \<and>
      map valence (global_derivative_std s) = map valence (global_derivative_std s'))"

text \<open>
  The two lines of \<open>local_deviation\<close> as functions of the valences ingested so far, and
  the detections of that kind replayed from the valences and timestamps alone.
\<close>

definition local_deviation_data :: "nat \<Rightarrow> real list \<Rightarrow> real list" where
  "local_deviation_data w vs = map (\<lambda>i. mean1 (Buffer_last (take (Suc i) vs) w)) [0..<length vs]"

definition local_deviation_control :: "real \<Rightarrow> real list \<Rightarrow> real list" where
  "local_deviation_control sens vs =
     map (\<lambda>i. mean1 (take (Suc i) vs) - sqrt (var1 (take (Suc i) vs)) * sens) [0..<length vs]"

fun replay_local_deviation ::
  "real \<Rightarrow> nat \<Rightarrow> real list \<Rightarrow> nat \<Rightarrow> (real \<times> real) list \<Rightarrow> (real \<times> crossing) list" where
  "replay_local_deviation sens w vs len [] = []"
| "replay_local_deviation sens w vs len ((v, t) # rest) =
     (let data = local_deviation_data w (vs @ [v]);
          control = local_deviation_control sens (vs @ [v]);
          cs = (if t < DELAY then []
                else
                  let opened = (if is_intersection data control then [(t, Opening)] else [])
                  in opened @
                     (if odd (len + length opened) \<and> is_intersection control data
                      then [(t, Closing)] else []))
      in cs @ replay_local_deviation sens w (vs @ [v]) (len + length cs) rest)"

section \<open>Basic facts\<close>

lemma va_sel [simp]:
  "valence (va_add p q) = valence p + valence q"
  "arousal (va_add p q) = arousal p + arousal q"
  "valence (va_sub p q) = valence p - valence q"
  "arousal (va_sub p q) = arousal p - arousal q"
  "valence (va_mul p q) = valence p * valence q"
  "arousal (va_mul p q) = arousal p * arousal q"
  "valence (va_scale p c) = valence p * c"
  "arousal (va_scale p c) = arousal p * c"
  "valence (va_div p c) = valence p / c"
  "arousal (va_div p c) = arousal p / c"
  "valence (va_map f p) = f (valence p)"
  "arousal (va_map f p) = f (arousal p)"
  by (simp_all add: va_add_def va_sub_def va_mul_def va_scale_def va_div_def va_map_def)

lemma getitem_m1: "Buffer_getitem xs (- 1) = (if xs = [] then None else Some (last xs))"
  by (cases xs rule: rev_cases) (auto simp: Buffer_getitem_def nth_append)

lemma getitem_m2:
  "Buffer_getitem xs (- 2) = (if length xs < 2 then None else Some (xs ! (length xs - 2)))"
  by (auto simp: Buffer_getitem_def nat_diff_distrib' intro!: arg_cong[where f="nth xs"])

lemma len2_ne: "\<not> length xs < 2 \<Longrightarrow> xs \<noteq> []"
  by auto

lemma va_mean_Some: "va_mean s mean va = Some (next_mean (number_of_reads s) mean va)"
  by (simp add: va_mean_def next_mean_def getitem_m1)

lemma va_variance_Some:
  "variance \<noteq> [] \<or> length mean < 2 \<Longrightarrow>
   va_variance s variance mean va =
     Some (next_variance (number_of_reads s) (va_buffer s) variance mean va)"
  by (auto simp: va_variance_def next_variance_def getitem_m1 getitem_m2)


lemma va_std_Some: "variance \<noteq> [] \<Longrightarrow> va_std s variance = Some (va_map sqrt (last variance))"
  by (simp add: va_std_def getitem_m1)

lemma derivative_Some: "derivative s = Some (diff_last (va_buffer s))"
  by (auto simp: derivative_def diff_last_def getitem_m1 getitem_m2)

lemma np_var_single: "np_var [x] = ValenceArousal 0 0"
  by (simp add: np_var_def np_mean_def va_mul_def va_sub_def)

lemma is_intersection_conv:
  "is_intersection values_1 values_2 \<longleftrightarrow>
     2 \<le> length values_1 \<and> 2 \<le> length values_2 \<and>
     values_1 ! (length values_1 - 2) > values_2 ! (length values_2 - 2) \<and>
     last values_1 < last values_2"
  by (auto simp: is_intersection_def getitem_m1 getitem_m2)

lemma is_intersection_exclusive: "\<not> (is_intersection a b \<and> is_intersection b a)"
  by (auto simp: is_intersection_def getitem_m1 getitem_m2 split: if_splits option.splits
      simp: bind_eq_Some_conv)

subsection \<open>One ingestion\<close>

lemma refresh_statistics_fields:
  assumes "lens_ok s" and "refresh_statistics s va = Some s'"
  shows "sensitivity s' = sensitivity s"
    and "moving_average_size s' = moving_average_size s"
    and "derivative_moving_average_size s' = derivative_moving_average_size s"
    and "priv_v s' = priv_v s @ [valence va]"
    and "priv_a s' = priv_a s @ [arousal va]"
    and "va_buffer s' = va_buffer s @ [va]"
    and "number_of_reads s' = number_of_reads s + 1"
    and "intersections s' = intersections s"
    and "last_deviation_read s' = last_deviation_read s"
    and "va_moving_average_buf s' =
       va_moving_average_buf s @ [np_mean (Buffer_last (va_buffer s @ [va]) (moving_average_size s))]"
    and "va_mean_local_buffer s' = va_mean_local_buffer s @ [np_mean (va_buffer s @ [va])]"
    and "va_std_local_buffer s' = va_std_local_buffer s @ [np_std (va_buffer s @ [va])]"
    and "va_mean_global_buffer s' =
       va_mean_global_buffer s @ [next_mean (number_of_reads s) (va_mean_global_buffer s) va]"
    and "va_variance_global_buffer s' =
       va_variance_global_buffer s @
         [next_variance (number_of_reads s) (va_buffer s') (va_variance_global_buffer s)
            (va_mean_global_buffer s') va]"
    and "va_std_global_buffer s' =
       va_std_global_buffer s @ [va_map sqrt (last (va_variance_global_buffer s'))]"
    and "derivative_buffer s' = derivative_buffer s @ [diff_last (va_buffer s')]"
    and "derivative_moving_average_buf s' =
       derivative_moving_average_buf s @
         [np_mean (Buffer_last (derivative_buffer s') (derivative_moving_average_size s))]"
    and "local_derivative_mean s' = local_derivative_mean s @ [np_mean (derivative_buffer s')]"
    and "local_derivative_std s' = local_derivative_std s @ [np_std (derivative_buffer s')]"
    and "global_derivative_mean s' =
       global_derivative_mean s @
         [next_mean (number_of_reads s) (global_derivative_mean s) (diff_last (va_buffer s'))]"
    and "global_derivative_variance s' =
       global_derivative_variance s @
         [next_variance (number_of_reads s) (va_buffer s') (global_derivative_variance s)
            (global_derivative_mean s') (diff_last (va_buffer s'))]"
    and "global_derivative_std s' =
       global_derivative_std s @ [va_map sqrt (last (global_derivative_variance s'))]"
proof -
  have v: "va_variance_global_buffer s \<noteq> [] \<or> length (va_mean_global_buffer s @ [m]) < 2" for m
    using assms by (cases "va_variance_global_buffer s") (auto simp: lens_ok_def)
  have d: "global_derivative_variance s \<noteq> [] \<or> length (global_derivative_mean s @ [m]) < 2" for m
    using assms by (cases "global_derivative_variance s") (auto simp: lens_ok_def)
  have "refresh_statistics s va = Some (the (refresh_statistics s va))"
    by (simp add: refresh_statistics_def Let_def va_mean_Some va_variance_Some[OF v]
        va_variance_Some[OF d] va_std_Some derivative_Some)
  then have s': "s' = the (refresh_statistics s va)"
    using assms(2) by simp
  show "sensitivity s' = sensitivity s"
    and "moving_average_size s' = moving_average_size s"
    and "derivative_moving_average_size s' = derivative_moving_average_size s"
    and "priv_v s' = priv_v s @ [valence va]"
    and "priv_a s' = priv_a s @ [arousal va]"
    and "va_buffer s' = va_buffer s @ [va]"
    and "number_of_reads s' = number_of_reads s + 1"
    and "intersections s' = intersections s"
    and "last_deviation_read s' = last_deviation_read s"
    and "va_moving_average_buf s' =
       va_moving_average_buf s @ [np_mean (Buffer_last (va_buffer s @ [va]) (moving_average_size s))]"
    and "va_mean_local_buffer s' = va_mean_local_buffer s @ [np_mean (va_buffer s @ [va])]"
    and "va_std_local_buffer s' = va_std_local_buffer s @ [np_std (va_buffer s @ [va])]"
    and "va_mean_global_buffer s' =
       va_mean_global_buffer s @ [next_mean (number_of_reads s) (va_mean_global_buffer s) va]"
    and "va_variance_global_buffer s' =
       va_variance_global_buffer s @
         [next_variance (number_of_reads s) (va_buffer s') (va_variance_global_buffer s)
            (va_mean_global_buffer s') va]"
    and "va_std_global_buffer s' =
       va_std_global_buffer s @ [va_map sqrt (last (va_variance_global_buffer s'))]"
    and "derivative_buffer s' = derivative_buffer s @ [diff_last (va_buffer s')]"
    and "derivative_moving_average_buf s' =
       derivative_moving_average_buf s @
         [np_mean (Buffer_last (derivative_buffer s') (derivative_moving_average_size s))]"
    and "local_derivative_mean s' = local_derivative_mean s @ [np_mean (derivative_buffer s')]"
    and "local_derivative_std s' = local_derivative_std s @ [np_std (derivative_buffer s')]"
    and "global_derivative_mean s' =
       global_derivative_mean s @
         [next_mean (number_of_reads s) (global_derivative_mean s) (diff_last (va_buffer s'))]"
    and "global_derivative_variance s' =
       global_derivative_variance s @
         [next_variance (number_of_reads s) (va_buffer s') (global_derivative_variance s)
            (global_derivative_mean s') (diff_last (va_buffer s'))]"
    and "global_derivative_std s' =
       global_derivative_std s @ [va_map sqrt (last (global_derivative_variance s'))]"
    unfolding s'
    by (simp_all add: refresh_statistics_def Let_def va_mean_Some va_variance_Some[OF v]
        va_variance_Some[OF d] va_std_Some derivative_Some va_moving_average_def
        derivative_moving_average_def)
qed

lemma refresh_statistics_Some:
  assumes "lens_ok s"
  shows "\<exists>s'. refresh_statistics s va = Some s'"
proof -
  have v: "va_variance_global_buffer s \<noteq> [] \<or> length (va_mean_global_buffer s @ [m]) < 2" for m
    using assms by (cases "va_variance_global_buffer s") (auto simp: lens_ok_def)
  have d: "global_derivative_variance s \<noteq> [] \<or> length (global_derivative_mean s @ [m]) < 2" for m
    using assms by (cases "global_derivative_variance s") (auto simp: lens_ok_def)
  show ?thesis
    by (simp add: refresh_statistics_def Let_def va_mean_Some va_variance_Some[OF v]
        va_variance_Some[OF d] va_std_Some derivative_Some)
qed

lemma refresh_statistics_intersections:
  "refresh_statistics s va = Some s1 \<Longrightarrow> intersections s1 = intersections s"
  by (auto simp: refresh_statistics_def Let_def bind_eq_Some_conv)

lemma find_intersections_fields [simp]:
  "sensitivity (find_intersections s t) = sensitivity s"
  "moving_average_size (find_intersections s t) = moving_average_size s"
  "derivative_moving_average_size (find_intersections s t) = derivative_moving_average_size s"
  "priv_v (find_intersections s t) = priv_v s"
  "priv_a (find_intersections s t) = priv_a s"
  "va_buffer (find_intersections s t) = va_buffer s"
  "number_of_reads (find_intersections s t) = number_of_reads s"
  "last_deviation_read (find_intersections s t) = last_deviation_read s"
  "va_moving_average_buf (find_intersections s t) = va_moving_average_buf s"
  "va_mean_local_buffer (find_intersections s t) = va_mean_local_buffer s"
  "va_std_local_buffer (find_intersections s t) = va_std_local_buffer s"
  "va_mean_global_buffer (find_intersections s t) = va_mean_global_buffer s"
  "va_variance_global_buffer (find_intersections s t) = va_variance_global_buffer s"
  "va_std_global_buffer (find_intersections s t) = va_std_global_buffer s"
  "derivative_buffer (find_intersections s t) = derivative_buffer s"
  "derivative_moving_average_buf (find_intersections s t) = derivative_moving_average_buf s"
  "local_derivative_mean (find_intersections s t) = local_derivative_mean s"
  "local_derivative_std (find_intersections s t) = local_derivative_std s"
  "global_derivative_mean (find_intersections s t) = global_derivative_mean s"
  "global_derivative_variance (find_intersections s t) = global_derivative_variance s"
  "global_derivative_std (find_intersections s t) = global_derivative_std s"
  by (simp_all add: find_intersections_def Let_def)

lemma find_intersections_warm_up: "t < DELAY \<Longrightarrow> find_intersections s t = s"
  by (simp add: find_intersections_def)

lemma find_intersections_reset:
  "(find_intersections s t)\<lparr>intersections := intersections s\<rparr> = s"
  by (simp add: find_intersections_def Let_def)

lemma lens_ok_init: "lens_ok (init sens w dw)"
  by (simp add: lens_ok_def init_def)

lemma lens_ok_step:
  assumes "lens_ok s" and "add_inference_result s va t = Some s'"
  shows "lens_ok s'"
proof -
  from assms(2) obtain s1 where s1: "refresh_statistics s va = Some s1"
    and s': "s' = find_intersections s1 t"
    by (auto simp: add_inference_result_def bind_eq_Some_conv)
  note f = refresh_statistics_fields[OF assms(1) s1]
  show ?thesis
    using assms(1) by (simp add: lens_ok_def s' f(13,14,20,21))
qed

lemma run_snoc:
  "run s (xs @ [(va, t)]) = do { s' \<leftarrow> run s xs; add_inference_result s' va t }"
  by (induction s xs rule: run.induct) (simp_all add: bind_assoc cong: Option.bind_cong)

lemma init_va_buffer: "va_buffer (init sens w dw) = []"
  by (simp add: init_def)

subsection \<open>The dictionary and the appends of one call\<close>

lemma dd_getitem_fst: "fst (dd_getitem d k) = timeline d k"
  by (simp add: dd_getitem_def timeline_def split: option.splits)

lemma dd_getitem_snd: "timeline (snd (dd_getitem d k)) k' = timeline d k'"
  by (auto simp: dd_getitem_def timeline_def split: option.splits if_splits)

lemma timeline_update: "timeline (AList.update k v d) k' = (if k' = k then v else timeline d k')"
  by (simp add: timeline_def update_conv')

lemma timeline_dd_append:
  "timeline (dd_append d k t) k' = (if k' = k then timeline d k @ [t] else timeline d k')"
  using dd_getitem_fst[of d k] dd_getitem_snd[of d k k']
  by (cases "dd_getitem d k") (simp add: dd_append_def timeline_update)

lemma timeline_add_intersect:
  "timeline (add_intersect t dl cl a c d) k =
     (if k = a \<and> (if c then odd (length (timeline d a)) else True) \<and> is_intersection dl cl
      then timeline d a @ [t] else timeline d k)"
  using dd_getitem_fst[of d a] dd_getitem_snd[of d a]
  by (cases "dd_getitem d a") (auto simp: add_intersect_def timeline_dd_append odd_iff_mod_2_eq_one)

lemma timeline_init: "timeline (intersections (init sens w dw)) k = []"
  by (simp add: init_def timeline_def)

lemma timeline_events:
  assumes "t \<in> set (timeline (intersections s) k)"
  shows "(t, k) \<in> set (events s)"
proof -
  from assms obtain ts where ts: "map_of (intersections s) k = Some ts" "t \<in> set ts"
    by (cases "map_of (intersections s) k") (auto simp: timeline_def)
  from map_of_SomeD[OF ts(1)] ts(2) show ?thesis
    by (force simp: events_def)
qed

lemma find_intersections_timeline:
  "timeline (intersections (find_intersections s t)) k =
     timeline (intersections s) k @ map fst (crossings s t k)"
  by (cases k)
     (simp_all add: find_intersections_def Let_def timeline_add_intersect crossings_def
        data_line_def control_line_def interval_style_def)

lemma crossings_le1: "length (crossings s t k) \<le> 1"
  using is_intersection_exclusive[of "data_line s k" "control_line s k"]
  by (auto simp: crossings_def Let_def)

lemma crossings_closing:
  assumes "i < length (crossings s t k)" and "snd (crossings s t k ! i) = Closing"
  shows "interval_style k \<and> odd (length (timeline (intersections s) k) + i)"
  using assms
  by (auto simp: crossings_def Let_def nth_append less_Suc_eq split: if_splits)

lemma run_timeline:
  "run s xs = Some s' \<Longrightarrow>
   timeline (intersections s') k = timeline (intersections s) k @ map fst (session_crossings s xs k)"
proof (induction s xs arbitrary: s' rule: run.induct)
  case (1 s)
  then show ?case by simp
next
  case (2 s va t rest)
  from "2.prems" obtain s1 where s1: "refresh_statistics s va = Some s1"
    and r: "run (find_intersections s1 t) rest = Some s'"
    by (auto simp: add_inference_result_def bind_eq_Some_conv)
  have a: "add_inference_result s va t = Some (find_intersections s1 t)"
    by (simp add: add_inference_result_def s1)
  from "2.IH"[OF a r] show ?case
    by (simp add: s1 find_intersections_timeline refresh_statistics_intersections[OF s1])
qed

lemma session_crossings_parity:
  "i < length (session_crossings s xs k) \<Longrightarrow> snd (session_crossings s xs k ! i) = Closing \<Longrightarrow>
   interval_style k \<and> odd (length (timeline (intersections s) k) + i)"
proof (induction s xs k arbitrary: i rule: session_crossings.induct)
  case (1 s k)
  then show ?case by simp
next
  case (2 s va t rest k)
  show ?case
  proof (cases "refresh_statistics s va")
    case None
    with "2.prems" show ?thesis by simp
  next
    case (Some s1)
    note e = refresh_statistics_intersections[OF Some]
    let ?c = "crossings s1 t k"
    let ?r = "session_crossings (find_intersections s1 t) rest k"
    from "2.prems" have i: "i < length (?c @ ?r)" and c: "snd ((?c @ ?r) ! i) = Closing"
      by (simp_all add: Some)
    show ?thesis
    proof (cases "i < length ?c")
      case True
      with c have "snd (?c ! i) = Closing" by (simp add: nth_append)
      from crossings_closing[OF True this] show ?thesis by (simp add: e)
    next
      case False
      with i c have j: "i - length ?c < length ?r" "snd (?r ! (i - length ?c)) = Closing"
        by (simp_all add: nth_append)
      from "2.IH"[OF Some j] False show ?thesis
        by (simp add: find_intersections_timeline e)
    qed
  qed
qed

lemma run_warm_up:
  "run s xs = Some s' \<Longrightarrow> list_all (\<lambda>x. snd x < DELAY) xs \<Longrightarrow> intersections s' = intersections s"
proof (induction s xs arbitrary: s' rule: run.induct)
  case (1 s)
  then show ?case by simp
next
  case (2 s va t rest)
  from "2.prems" obtain s1 where s1: "refresh_statistics s va = Some s1"
    and r: "run (find_intersections s1 t) rest = Some s'"
    by (auto simp: add_inference_result_def bind_eq_Some_conv)
  have a: "add_inference_result s va t = Some (find_intersections s1 t)"
    by (simp add: add_inference_result_def s1)
  from "2.prems"(2) have t: "t < DELAY" and l: "list_all (\<lambda>x. snd x < DELAY) rest" by simp_all
  from "2.IH"[OF a r l] show ?case
    by (simp add: find_intersections_warm_up[OF t] refresh_statistics_intersections[OF s1])
qed

subsection \<open>The buffers of a session in closed form\<close>

lemma length_cum [simp]: "length (cum f rs) = length rs"
  by (simp add: cum_def)

lemma cum_nth: "i < length rs \<Longrightarrow> cum f rs ! i = f (take (Suc i) rs)"
  by (simp add: cum_def)

lemma cum_Nil [simp]: "cum f [] = []"
  by (simp add: cum_def)

lemma cum_snoc: "cum f (rs @ [r]) = cum f rs @ [f (rs @ [r])]"
  by (simp add: cum_def)

lemma tracks_init: "tracks sens w dw [] (init sens w dw)"
  by (simp add: tracks_def init_def)

lemma tracks_lens_ok: "tracks sens w dw rs s \<Longrightarrow> lens_ok s"
  by (simp add: tracks_def lens_ok_def)

lemma tracks_step:
  assumes "tracks sens w dw rs s"
  shows "\<exists>s'. add_inference_result s va t = Some s' \<and> tracks sens w dw (rs @ [va]) s'"
proof -
  note ok = tracks_lens_ok[OF assms]
  from refresh_statistics_Some[OF ok] obtain s1 where s1: "refresh_statistics s va = Some s1"
    by blast
  note f = refresh_statistics_fields[OF ok s1]
  show ?thesis
    using assms by (simp add: add_inference_result_def s1 tracks_def f cum_snoc)
qed

lemma run_tracks:
  "\<exists>s. run (init sens w dw) xs = Some s \<and> tracks sens w dw (map fst xs) s"
proof (induction xs rule: rev_induct)
  case Nil
  show ?case by (simp add: tracks_init)
next
  case (snoc x xs)
  then obtain s where s: "run (init sens w dw) xs = Some s" "tracks sens w dw (map fst xs) s"
    by blast
  obtain va t where x: "x = (va, t)" by (cases x)
  from tracks_step[OF s(2), of va t] s x show ?case by (simp add: run_snoc)
qed

lemma tracks_refresh:
  assumes "tracks sens w dw rs s"
  obtains s1 where "refresh_statistics s va = Some s1" and "tracks sens w dw (rs @ [va]) s1"
    and "tracks sens w dw (rs @ [va]) (find_intersections s1 t)"
proof -
  note ok = tracks_lens_ok[OF assms]
  from refresh_statistics_Some[OF ok] obtain s1 where s1: "refresh_statistics s va = Some s1"
    by blast
  note f = refresh_statistics_fields[OF ok s1]
  have "tracks sens w dw (rs @ [va]) s1"
    using assms by (simp add: tracks_def f cum_snoc)
  moreover from this have "tracks sens w dw (rs @ [va]) (find_intersections s1 t)"
    by (simp add: tracks_def)
  ultimately show ?thesis using s1 that by blast
qed

lemma diff_last_take:
  assumes "n < length rs"
  shows "diff_last (take (Suc n) rs) =
     (if n = 0 then ValenceArousal 0 0 else va_sub (rs ! n) (rs ! (n - 1)))"
proof (cases n)
  case 0
  with assms show ?thesis
    by (simp add: take_Suc_conv_app_nth diff_last_def)
next
  case (Suc m)
  with assms have "take (Suc n) rs = take m rs @ [rs ! m, rs ! n]"
    by (simp add: take_Suc_conv_app_nth)
  then show ?thesis
    using Suc by (simp add: diff_last_def nth_append)
qed

lemma drop_take_nth_upt:
  assumes "b \<le> length xs"
  shows "drop a (take b xs) = map ((!) xs) [a..<b]"
proof (rule nth_equalityI)
  show "length (drop a (take b xs)) = length (map ((!) xs) [a..<b])"
    using assms by simp
next
  fix i assume "i < length (drop a (take b xs))"
  with assms have i: "i < b - a" by simp
  then have "a + i < b" by simp
  then have "drop a (take b xs) ! i = xs ! (a + i)"
    using assms by simp
  also have "\<dots> = map ((!) xs) [a..<b] ! i"
    using i by (simp only: nth_map_upt)
  finally show "drop a (take b xs) ! i = map ((!) xs) [a..<b] ! i" .
qed

lemma sum_list_window:
  assumes "b \<le> length xs"
  shows "sum_list (map f (drop a (take b xs))) = (\<Sum>i = a..<b. f (xs ! i))"
  by (simp add: drop_take_nth_upt[OF assms] comp_def interv_sum_list_conv_sum_set_nat)

lemma np_mean_window:
  assumes "n < length rs"
  shows "np_mean (Buffer_last (take (Suc n) rs) w) =
     ValenceArousal
       ((\<Sum>i = Suc n - min (Suc n) w..<Suc n. valence (rs ! i)) / real (min (Suc n) w))
       ((\<Sum>i = Suc n - min (Suc n) w..<Suc n. arousal (rs ! i)) / real (min (Suc n) w))"
proof -
  have l: "length (take (Suc n) rs) = Suc n" using assms by simp
  have b: "Suc n \<le> length rs" using assms by simp
  have a: "Suc n - min (Suc n) w = Suc n - w" by (simp add: min_def)
  have c: "Suc n - (Suc n - w) = min (Suc n) w" by (simp add: min_def)
  show ?thesis
    unfolding np_mean_def Buffer_last_def l a
    by (simp only: sum_list_window[OF b] length_drop l c)
qed

subsection \<open>The incremental estimator along a session\<close>

lemma incremental_Nil: "incremental [] [] [] []"
  by (simp add: incremental_def)

lemma incremental_snoc:
  assumes "incremental x mean var std"
    and m: "m = next_mean (length x) mean xn"
    and v: "v = next_variance (length x) buf var (mean @ [m]) xn"
  shows "incremental (x @ [xn]) (mean @ [m]) (var @ [v]) (std @ [va_map sqrt v])"
proof -
  from assms(1) have len: "length mean = length x" "length var = length x" "length std = length x"
    by (simp_all add: incremental_def)
  have old: "std ! i = va_map sqrt (var ! i) \<and>
         (if i = 0 then mean ! i = x ! i
          else mean ! i = va_div (va_add (va_scale (mean ! (i - 1)) (real i)) (x ! i)) (real (i + 1)) \<and>
               var ! i = va_div (va_add (va_scale (var ! (i - 1)) (real i))
                                   (va_mul (va_sub (x ! i) (mean ! i)) (va_sub (x ! i) (mean ! (i - 1)))))
                                (real (i + 1)))" if "i < length x" for i
    using assms(1) that unfolding incremental_def by blast
  have new0: "m = xn" if "length x = 0"
    using that len by (simp add: m next_mean_def)
  have newm: "m = va_div (va_add (va_scale (mean ! (length x - 1)) (real (length x))) xn)
                  (real (length x + 1))" if "0 < length x"
  proof -
    from that len have "mean \<noteq> []" by auto
    with that len show ?thesis
      by (simp add: m next_mean_def last_conv_nth)
  qed
  have newv: "v = va_div (va_add (va_scale (var ! (length x - 1)) (real (length x)))
                                   (va_mul (va_sub xn m) (va_sub xn (mean ! (length x - 1)))))
                                (real (length x + 1))" if "0 < length x"
  proof -
    from that len have "var \<noteq> []" "mean \<noteq> []" by auto
    with that len show ?thesis
      by (simp add: v next_variance_def last_conv_nth nth_append)
  qed
  show ?thesis
    unfolding incremental_def
  proof (intro conjI allI impI)
    fix i assume "i < length (x @ [xn])"
    then consider "i < length x" | "i = length x" by fastforce
    then show "(std @ [va_map sqrt v]) ! i = va_map sqrt ((var @ [v]) ! i)"
      using old[of i] len by cases (simp_all add: nth_append)
    show "if i = 0 then (mean @ [m]) ! i = (x @ [xn]) ! i
          else (mean @ [m]) ! i = va_div (va_add (va_scale ((mean @ [m]) ! (i - 1)) (real i)) ((x @ [xn]) ! i)) (real (i + 1)) \<and>
               (var @ [v]) ! i = va_div (va_add (va_scale ((var @ [v]) ! (i - 1)) (real i))
                                   (va_mul (va_sub ((x @ [xn]) ! i) ((mean @ [m]) ! i)) (va_sub ((x @ [xn]) ! i) ((mean @ [m]) ! (i - 1)))))
                                (real (i + 1))"
    proof (cases "i < length x")
      case True
      then show ?thesis using old[of i] len by (auto simp: nth_append)
    next
      case False
      with \<open>i < length (x @ [xn])\<close> have i: "i = length x" by simp
      show ?thesis
      proof (cases "length x = 0")
        case True
        then show ?thesis using i new0 len by simp
      next
        case False
        then have "0 < length x" by simp
        from newm[OF this] newv[OF this] False show ?thesis
          using i len by (simp add: nth_append)
      qed
    qed
  qed (simp_all add: len)
qed

lemma run_incremental:
  "\<exists>s. run (init sens w dw) xs = Some s \<and> tracks sens w dw (map fst xs) s \<and>
       incremental (va_buffer s) (va_mean_global_buffer s) (va_variance_global_buffer s)
         (va_std_global_buffer s) \<and>
       incremental (derivative_buffer s) (global_derivative_mean s) (global_derivative_variance s)
         (global_derivative_std s)"
proof (induction xs rule: rev_induct)
  case Nil
  show ?case by (simp add: tracks_init) (simp add: init_def incremental_Nil)
next
  case (snoc x xs)
  then obtain s where s: "run (init sens w dw) xs = Some s" "tracks sens w dw (map fst xs) s"
    and i1: "incremental (va_buffer s) (va_mean_global_buffer s) (va_variance_global_buffer s)
         (va_std_global_buffer s)"
    and i2: "incremental (derivative_buffer s) (global_derivative_mean s)
         (global_derivative_variance s) (global_derivative_std s)"
    by blast
  obtain va t where x: "x = (va, t)" by (cases x)
  note ok = tracks_lens_ok[OF s(2)]
  from refresh_statistics_Some[OF ok] obtain s1 where s1: "refresh_statistics s va = Some s1"
    by blast
  note f = refresh_statistics_fields[OF ok s1]
  from tracks_step[OF s(2), of va t] have tr: "tracks sens w dw (map fst (xs @ [x])) (find_intersections s1 t)"
    by (simp add: add_inference_result_def s1 x)
  have n: "number_of_reads s = length (va_buffer s)" "length (derivative_buffer s) = length (va_buffer s)"
    using s(2) by (simp_all add: tracks_def)
  define m where "m = next_mean (length (va_buffer s)) (va_mean_global_buffer s) va"
  define v where "v = next_variance (length (va_buffer s)) (va_buffer s1)
                        (va_variance_global_buffer s) (va_mean_global_buffer s @ [m]) va"
  have e1: "va_mean_global_buffer s1 = va_mean_global_buffer s @ [m]"
    by (simp add: f(13) m_def n)
  have e2: "va_variance_global_buffer s1 = va_variance_global_buffer s @ [v]"
    by (simp add: f(14) v_def n e1)
  have e3: "va_std_global_buffer s1 = va_std_global_buffer s @ [va_map sqrt v]"
    by (simp add: f(15) e2)
  have j1: "incremental (va_buffer s1) (va_mean_global_buffer s1) (va_variance_global_buffer s1)
         (va_std_global_buffer s1)"
    unfolding e1 e2 e3 f(6) by (rule incremental_snoc[OF i1 m_def v_def])
  define d where "d = diff_last (va_buffer s1)"
  define dm where "dm = next_mean (length (derivative_buffer s)) (global_derivative_mean s) d"
  define dv where "dv = next_variance (length (derivative_buffer s)) (va_buffer s1)
                        (global_derivative_variance s) (global_derivative_mean s @ [dm]) d"
  have d0: "derivative_buffer s1 = derivative_buffer s @ [d]"
    by (simp add: f(16) d_def)
  have d1: "global_derivative_mean s1 = global_derivative_mean s @ [dm]"
    by (simp add: f(20) dm_def d_def n)
  have d2: "global_derivative_variance s1 = global_derivative_variance s @ [dv]"
    by (simp add: f(21) dv_def d_def n d1)
  have d3: "global_derivative_std s1 = global_derivative_std s @ [va_map sqrt dv]"
    by (simp add: f(22) d2)
  have j2: "incremental (derivative_buffer s1) (global_derivative_mean s1)
         (global_derivative_variance s1) (global_derivative_std s1)"
    unfolding d0 d1 d2 d3 by (rule incremental_snoc[OF i2 dm_def dv_def])
  from s(1) tr j1 j2 show ?case
    by (simp add: run_snoc x add_inference_result_def s1)
qed

lemma run_incremental_nth:
  assumes "n < length xs"
  shows "\<exists>s. run (init sens w dw) xs = Some s \<and> va_buffer s = map fst xs \<and>
       length (derivative_buffer s) = length xs \<and>
       incremental (va_buffer s) (va_mean_global_buffer s) (va_variance_global_buffer s)
         (va_std_global_buffer s) \<and>
       incremental (derivative_buffer s) (global_derivative_mean s) (global_derivative_variance s)
         (global_derivative_std s)"
  using run_incremental[of sens w dw xs] by (auto simp: tracks_def)

lemma run_first_variance:
  "xs \<noteq> [] \<Longrightarrow>
   \<exists>s. run (init sens w dw) xs = Some s \<and> tracks sens w dw (map fst xs) s \<and>
       global_derivative_variance s ! 0 = np_var [fst (hd xs)] \<and>
       va_variance_global_buffer s ! 0 = np_var [fst (hd xs)]"
proof (induction xs rule: rev_induct)
  case Nil
  then show ?case by simp
next
  case (snoc x xs)
  obtain va t where x: "x = (va, t)" by (cases x)
  from run_tracks[of sens w dw xs] obtain s where
    s: "run (init sens w dw) xs = Some s" "tracks sens w dw (map fst xs) s" by blast
  from tracks_refresh[OF s(2), of va t] obtain s1 where
    s1: "refresh_statistics s va = Some s1" and t2: "tracks sens w dw (map fst xs @ [va]) (find_intersections s1 t)"
    by blast
  note f = refresh_statistics_fields[OF tracks_lens_ok[OF s(2)] s1]
  have r: "run (init sens w dw) (xs @ [x]) = Some (find_intersections s1 t)"
    by (simp add: x run_snoc s(1) add_inference_result_def s1)
  show ?case
  proof (cases "xs = []")
    case True
    with s(2) have e: "va_buffer s = []" "global_derivative_mean s = []" "global_derivative_variance s = []"
      "va_mean_global_buffer s = []" "va_variance_global_buffer s = []"
      by (simp_all add: tracks_def)
    have "global_derivative_variance s1 ! 0 = np_var [va]" "va_variance_global_buffer s1 ! 0 = np_var [va]"
      by (simp_all add: f(21) f(20) f(14) f(13) f(6) e next_variance_def)
    with r t2 True x show ?thesis by simp
  next
    case False
    from snoc.IH[OF False] s(1) have
      o: "global_derivative_variance s ! 0 = np_var [fst (hd xs)]"
         "va_variance_global_buffer s ! 0 = np_var [fst (hd xs)]" by auto
    from s(2) False have n: "0 < length (global_derivative_variance s)" "0 < length (va_variance_global_buffer s)"
      by (simp_all add: tracks_def)
    have "global_derivative_variance s1 ! 0 = np_var [fst (hd xs)]" "va_variance_global_buffer s1 ! 0 = np_var [fst (hd xs)]"
      using n o by (simp_all add: f(21) f(14) nth_append)
    with r t2 False x show ?thesis by simp
  qed
qed

lemma first_ingestion_variances_coincide:
  assumes "xs \<noteq> []"
  shows "\<exists>s. run (init sens w dw) xs = Some s \<and>
           global_derivative_variance s ! 0 = np_var (take 1 (derivative_buffer s)) \<and>
           take 1 (derivative_buffer s) = [ValenceArousal 0 0]"
proof -
  from run_first_variance[OF assms, of sens w dw] obtain s where
    s: "run (init sens w dw) xs = Some s" "tracks sens w dw (map fst xs) s"
       "global_derivative_variance s ! 0 = np_var [fst (hd xs)]" by blast
  from s(2) have d: "derivative_buffer s = cum diff_last (map fst xs)"
    by (simp add: tracks_def)
  from assms have l: "0 < length (map fst xs)" by simp
  have "take 1 (derivative_buffer s) = [derivative_buffer s ! 0]"
    using l by (simp add: d take_Suc_conv_app_nth)
  also have "derivative_buffer s ! 0 = ValenceArousal 0 0"
    by (simp add: d cum_nth[OF l] diff_last_take[OF l])
  finally have t: "take 1 (derivative_buffer s) = [ValenceArousal 0 0]" .
  with s(1,3) show ?thesis by (simp add: np_var_single)
qed

subsection \<open>The valence column\<close>

lemma valence_np_mean: "valence (np_mean xs) = mean1 (map valence xs)"
  by (simp add: np_mean_def mean1_def)

lemma valence_np_var: "valence (np_var xs) = var1 (map valence xs)"
  by (simp add: np_var_def var1_def valence_np_mean Let_def comp_def)

lemma valence_np_std: "valence (np_std xs) = sqrt (var1 (map valence xs))"
  by (simp add: np_std_def valence_np_var)

lemma valence_next_mean:
  "valence (next_mean n mean x) = next_mean1 n (map valence mean) (valence x)"
  by (simp add: next_mean_def next_mean1_def last_map)

lemma valence_next_variance:
  "variance \<noteq> [] \<or> length mean < 2 \<Longrightarrow>
   valence (next_variance n buf variance mean x) =
     next_variance1 n (map valence buf) (map valence variance) (map valence mean) (valence x)"
  by (auto simp: next_variance_def next_variance1_def last_map len2_ne valence_np_var)

lemma valence_diff_last: "valence (diff_last xs) = diff_last1 (map valence xs)"
  by (auto simp: diff_last_def diff_last1_def last_map len2_ne)

lemma map_valence_Buffer_last: "map valence (Buffer_last xs n) = Buffer_last (map valence xs) n"
  by (simp add: Buffer_last_def drop_map)

lemma map_valence_threshold:
  "map valence (map2 va_sub xs (map (\<lambda>x. va_scale x c) ys)) =
     map2 (\<lambda>a b. a - b * c) (map valence xs) (map valence ys)"
  by (induction xs ys rule: list_induct2') simp_all

lemma map_valence_sigmoid:
  "map valence (map (va_map sigmoid) (map2 va_sub xs (map (\<lambda>x. va_scale x c) ys))) =
     map sigmoid (map2 (\<lambda>a b. a - b * c) (map valence xs) (map valence ys))"
  by (induction xs ys rule: list_induct2') simp_all

lemma veq_refresh:
  assumes ok: "lens_ok s" and ok': "lens_ok s'" and v: "veq s s'"
    and va: "valence va = valence va'"
    and r: "refresh_statistics s va = Some s1" and r': "refresh_statistics s' va' = Some s1'"
  shows "veq s1 s1'"
proof -
  note f = refresh_statistics_fields[OF ok r]
  note f' = refresh_statistics_fields[OF ok' r']
  have a: "va_variance_global_buffer s \<noteq> [] \<or> length (va_mean_global_buffer s1) < 2"
    using ok by (cases "va_variance_global_buffer s") (auto simp: lens_ok_def f(13))
  have a': "va_variance_global_buffer s' \<noteq> [] \<or> length (va_mean_global_buffer s1') < 2"
    using ok' by (cases "va_variance_global_buffer s'") (auto simp: lens_ok_def f'(13))
  have b: "global_derivative_variance s \<noteq> [] \<or> length (global_derivative_mean s1) < 2"
    using ok by (cases "global_derivative_variance s") (auto simp: lens_ok_def f(20))
  have b': "global_derivative_variance s' \<noteq> [] \<or> length (global_derivative_mean s1') < 2"
    using ok' by (cases "global_derivative_variance s'") (auto simp: lens_ok_def f'(20))
  have m6: "map valence (va_buffer s1) = map valence (va_buffer s1')"
    using v va by (simp add: veq_def f(6) f'(6))
  have m13: "map valence (va_mean_global_buffer s1) = map valence (va_mean_global_buffer s1')"
    using v va by (simp add: veq_def f(13) f'(13) valence_next_mean)
  have m14: "map valence (va_variance_global_buffer s1) = map valence (va_variance_global_buffer s1')"
    using v va m6 m13
    by (simp add: veq_def f(14) f'(14) valence_next_variance[OF a] valence_next_variance[OF a'])
  have m15: "map valence (va_std_global_buffer s1) = map valence (va_std_global_buffer s1')"
    using v m14 by (simp add: veq_def f(15) f'(15) f(14) f'(14))
  have m16: "map valence (derivative_buffer s1) = map valence (derivative_buffer s1')"
    using v m6 by (simp add: veq_def f(16) f'(16) valence_diff_last)
  have m20: "map valence (global_derivative_mean s1) = map valence (global_derivative_mean s1')"
    using v m6 by (simp add: veq_def f(20) f'(20) valence_next_mean valence_diff_last)
  have m21: "map valence (global_derivative_variance s1) = map valence (global_derivative_variance s1')"
    using v m6 m20
    by (simp add: veq_def f(21) f'(21) valence_next_variance[OF b] valence_next_variance[OF b']
        valence_diff_last)
  have m22: "map valence (global_derivative_std s1) = map valence (global_derivative_std s1')"
    using v m21 by (simp add: veq_def f(22) f'(22) f(21) f'(21))
  have m10: "map valence (va_moving_average_buf s1) = map valence (va_moving_average_buf s1')"
    using v m6 by (simp add: veq_def f(10) f'(10) f(6) f'(6) valence_np_mean map_valence_Buffer_last)
  have m11: "map valence (va_mean_local_buffer s1) = map valence (va_mean_local_buffer s1')"
    using v m6 by (simp add: veq_def f(11) f'(11) f(6) f'(6) valence_np_mean)
  have m12: "map valence (va_std_local_buffer s1) = map valence (va_std_local_buffer s1')"
    using v m6 by (simp add: veq_def f(12) f'(12) f(6) f'(6) valence_np_std)
  have m17: "map valence (derivative_moving_average_buf s1) = map valence (derivative_moving_average_buf s1')"
    using v m16 by (simp add: veq_def f(17) f'(17) valence_np_mean map_valence_Buffer_last)
  have m18: "map valence (local_derivative_mean s1) = map valence (local_derivative_mean s1')"
    using v m16 by (simp add: veq_def f(18) f'(18) valence_np_mean)
  have m19: "map valence (local_derivative_std s1) = map valence (local_derivative_std s1')"
    using v m16 by (simp add: veq_def f(19) f'(19) valence_np_std)
  have p: "sensitivity s1 = sensitivity s1'" "moving_average_size s1 = moving_average_size s1'"
    "derivative_moving_average_size s1 = derivative_moving_average_size s1'"
    "number_of_reads s1 = number_of_reads s1'" "intersections s1 = intersections s1'"
    using v by (simp_all add: veq_def f(1,2,3,7,8) f'(1,2,3,7,8))
  show ?thesis
    unfolding veq_def
    using p m6 m10 m11 m12 m13 m14 m15 m16 m17 m18 m19 m20 m21 m22 by blast
qed

lemma veq_find_intersections:
  assumes "veq s s'"
  shows "veq (find_intersections s t) (find_intersections s' t)"
proof -
  have l: "map valence (va_moving_average_buf s) = map valence (va_moving_average_buf s')"
    "map valence (derivative_moving_average_buf s) = map valence (derivative_moving_average_buf s')"
    "map valence (deviation_threshold s (va_std_global_buffer s)) =
       map valence (deviation_threshold s' (va_std_global_buffer s'))"
    "map valence (deviation_threshold s (va_std_local_buffer s)) =
       map valence (deviation_threshold s' (va_std_local_buffer s'))"
    "map valence (sigmoid_threshold s (va_std_global_buffer s)) =
       map valence (sigmoid_threshold s' (va_std_global_buffer s'))"
    "map valence (sigmoid_threshold s (va_std_local_buffer s)) =
       map valence (sigmoid_threshold s' (va_std_local_buffer s'))"
    "map valence (derivative_threshold s (global_derivative_std s)) =
       map valence (derivative_threshold s' (global_derivative_std s'))"
    "map valence (derivative_threshold s (local_derivative_std s)) =
       map valence (derivative_threshold s' (local_derivative_std s'))"
    "intersections s = intersections s'"
    using assms
    unfolding veq_def deviation_threshold_def sigmoid_threshold_def derivative_threshold_def
    by (simp_all only: map_valence_threshold map_valence_sigmoid)
  have "intersections (find_intersections s t) = intersections (find_intersections s' t)"
    unfolding find_intersections_def Let_def l by (simp add: l(9))
  with assms show ?thesis
    by (simp add: veq_def)
qed

lemma veq_run:
  assumes "lens_ok s" and "lens_ok s'" and "veq s s'"
    and "map snd xs = map snd ys"
    and "map (\<lambda>x. valence (fst x)) xs = map (\<lambda>x. valence (fst x)) ys"
  shows "\<exists>r r'. run s xs = Some r \<and> run s' ys = Some r' \<and> veq r r'"
  using assms
proof (induction xs arbitrary: ys s s')
  case Nil
  then show ?case by simp
next
  case (Cons x xs)
  then obtain y ys' where ys: "ys = y # ys'" by (cases ys) auto
  obtain va t where x: "x = (va, t)" by (cases x)
  obtain va' t' where y: "y = (va', t')" by (cases y)
  from Cons.prems(4,5) have e: "t' = t" "valence va = valence va'"
    and rest: "map snd xs = map snd ys'"
      "map (\<lambda>x. valence (fst x)) xs = map (\<lambda>x. valence (fst x)) ys'"
    by (simp_all add: ys x y)
  from refresh_statistics_Some[OF Cons.prems(1)] obtain s1 where
    s1: "refresh_statistics s va = Some s1" by blast
  from refresh_statistics_Some[OF Cons.prems(2)] obtain s1' where
    s1': "refresh_statistics s' va' = Some s1'" by blast
  have a: "add_inference_result s va t = Some (find_intersections s1 t)"
    "add_inference_result s' va' t = Some (find_intersections s1' t)"
    by (simp_all add: add_inference_result_def s1 s1')
  have v: "veq (find_intersections s1 t) (find_intersections s1' t)"
    by (rule veq_find_intersections)
       (rule veq_refresh[OF Cons.prems(1,2,3) e(2) s1 s1'])
  from Cons.IH[OF lens_ok_step[OF Cons.prems(1) a(1)] lens_ok_step[OF Cons.prems(2) a(2)] v rest]
  show ?case
    by (simp add: ys x y e a)
qed

lemma veq_refl_init: "veq (init sens w dw) (init sens w dw)"
  by (simp add: veq_def)

subsection \<open>Replaying the detections of local_deviation\<close>

lemma map2_same: "map2 f (map g xs) (map h xs) = map (\<lambda>x. f (g x) (h x)) xs"
  by (induction xs) simp_all

lemma tracks_local_deviation_lines:
  assumes "tracks sens w dw rs s"
  shows "data_line s local_deviation = local_deviation_data w (map valence rs)"
    and "control_line s local_deviation = local_deviation_control sens (map valence rs)"
proof -
  from assms have f: "va_moving_average_buf s = cum (\<lambda>ys. np_mean (Buffer_last ys w)) rs"
    "va_mean_local_buffer s = cum np_mean rs" "va_std_local_buffer s = cum np_std rs"
    "sensitivity s = sens"
    by (simp_all add: tracks_def)
  show "data_line s local_deviation = local_deviation_data w (map valence rs)"
    by (simp add: data_line_def f local_deviation_data_def cum_def valence_np_mean
        map_valence_Buffer_last take_map)
  have "control_line s local_deviation =
        map2 (\<lambda>a b. a - b * sens) (map valence (cum np_mean rs)) (map valence (cum np_std rs))"
    unfolding control_line_def deviation_threshold_def f
    by (simp only: Activator.case map_valence_threshold)
  also have "\<dots> = local_deviation_control sens (map valence rs)"
    unfolding cum_def map_map map2_same local_deviation_control_def
    by (simp add: valence_np_mean valence_np_std take_map)
  finally show "control_line s local_deviation = local_deviation_control sens (map valence rs)" .
qed

lemma session_crossings_local_deviation:
  assumes "tracks sens w dw rs s"
  shows "session_crossings s xs local_deviation =
           replay_local_deviation sens w (map valence rs)
             (length (timeline (intersections s) local_deviation))
             (map (\<lambda>x. (valence (fst x), snd x)) xs)"
  using assms
proof (induction xs arbitrary: s rs)
  case Nil
  show ?case by simp
next
  case (Cons x xs)
  obtain va t where x: "x = (va, t)" by (cases x)
  from tracks_refresh[OF Cons.prems, of va t] obtain s1 where
    s1: "refresh_statistics s va = Some s1" and t1: "tracks sens w dw (rs @ [va]) s1"
    and t2: "tracks sens w dw (rs @ [va]) (find_intersections s1 t)" by blast
  note l = tracks_local_deviation_lines[OF t1]
  have c: "crossings s1 t local_deviation =
      (if t < DELAY then []
       else
         let opened = (if is_intersection (local_deviation_data w (map valence rs @ [valence va]))
                            (local_deviation_control sens (map valence rs @ [valence va]))
                       then [(t, Opening)] else [])
         in opened @
            (if odd (length (timeline (intersections s) local_deviation) + length opened) \<and>
                is_intersection (local_deviation_control sens (map valence rs @ [valence va]))
                  (local_deviation_data w (map valence rs @ [valence va]))
             then [(t, Closing)] else []))"
    by (simp add: crossings_def l interval_style_def refresh_statistics_intersections[OF s1])
  have len: "length (timeline (intersections (find_intersections s1 t)) local_deviation) =
      length (timeline (intersections s) local_deviation) + length (crossings s1 t local_deviation)"
    by (simp add: find_intersections_timeline refresh_statistics_intersections[OF s1])
  show ?case
    unfolding x
    apply (simp add: s1 Cons.IH[OF t2] len)
    apply (simp add: c Let_def)
    done
qed

lemma session_crossings_init_local_deviation:
  "session_crossings (init sens w dw) xs local_deviation =
     replay_local_deviation sens w [] 0 (map (\<lambda>x. (valence (fst x), snd x)) xs)"
  using session_crossings_local_deviation[OF tracks_init, of sens w dw xs]
  by (simp add: timeline_init)

lemmas replay_eval = local_deviation_data_def local_deviation_control_def mean1_def
  Buffer_last_def is_intersection_conv DELAY_def Let_def

section \<open>The claims\<close>

subsection \<open>C1\<close>

text \<open>
  C1: in every session and at every step \<open>n \<ge> 1\<close>, the global mean and variance of the
  raw signal, and those of the derivative signal, obey
  \<open>mean[n] = (mean[n-1] * n + x[n]) / (n + 1)\<close> and
  \<open>variance[n] = (variance[n-1] * n + (x[n] - mean[n]) * (x[n] - mean[n-1])) / (n + 1)\<close>
  componentwise, the mean starts at \<open>x[0]\<close>, and the standard deviation is the square
  root of the variance. The raw signal is \<open>va_buffer\<close>, the readings in order.
\<close>

theorem incremental_estimator:
  assumes "1 \<le> n" and "n < length xs"
  shows "\<exists>s. run (init sens w dw) xs = Some s \<and>
     va_buffer s = map fst xs \<and>
     va_mean_global_buffer s ! 0 = va_buffer s ! 0 \<and>
     va_mean_global_buffer s ! n =
       va_div (va_add (va_scale (va_mean_global_buffer s ! (n - 1)) (real n)) (va_buffer s ! n))
              (real (n + 1)) \<and>
     va_variance_global_buffer s ! n =
       va_div (va_add (va_scale (va_variance_global_buffer s ! (n - 1)) (real n))
                      (va_mul (va_sub (va_buffer s ! n) (va_mean_global_buffer s ! n))
                              (va_sub (va_buffer s ! n) (va_mean_global_buffer s ! (n - 1)))))
              (real (n + 1)) \<and>
     va_std_global_buffer s ! n = va_map sqrt (va_variance_global_buffer s ! n) \<and>
     va_std_global_buffer s ! 0 = va_map sqrt (va_variance_global_buffer s ! 0) \<and>
     global_derivative_mean s ! 0 = derivative_buffer s ! 0 \<and>
     global_derivative_mean s ! n =
       va_div (va_add (va_scale (global_derivative_mean s ! (n - 1)) (real n))
                      (derivative_buffer s ! n))
              (real (n + 1)) \<and>
     global_derivative_variance s ! n =
       va_div (va_add (va_scale (global_derivative_variance s ! (n - 1)) (real n))
                      (va_mul (va_sub (derivative_buffer s ! n) (global_derivative_mean s ! n))
                              (va_sub (derivative_buffer s ! n) (global_derivative_mean s ! (n - 1)))))
              (real (n + 1)) \<and>
     global_derivative_std s ! n = va_map sqrt (global_derivative_variance s ! n) \<and>
     global_derivative_std s ! 0 = va_map sqrt (global_derivative_variance s ! 0)"
proof -
  from run_incremental_nth[OF assms(2), of sens w dw] obtain s where
    s: "run (init sens w dw) xs = Some s" "va_buffer s = map fst xs"
      "length (derivative_buffer s) = length xs"
    and i1: "incremental (va_buffer s) (va_mean_global_buffer s) (va_variance_global_buffer s)
         (va_std_global_buffer s)"
    and i2: "incremental (derivative_buffer s) (global_derivative_mean s)
         (global_derivative_variance s) (global_derivative_std s)"
    by blast
  have n: "n < length (va_buffer s)" "0 < length (va_buffer s)" "n \<noteq> 0"
    "n < length (derivative_buffer s)" "0 < length (derivative_buffer s)"
    using assms s by auto
  from i1 n(1,3) have a: "va_std_global_buffer s ! n = va_map sqrt (va_variance_global_buffer s ! n)"
    "va_mean_global_buffer s ! n =
       va_div (va_add (va_scale (va_mean_global_buffer s ! (n - 1)) (real n)) (va_buffer s ! n))
              (real (n + 1))"
    "va_variance_global_buffer s ! n =
       va_div (va_add (va_scale (va_variance_global_buffer s ! (n - 1)) (real n))
                      (va_mul (va_sub (va_buffer s ! n) (va_mean_global_buffer s ! n))
                              (va_sub (va_buffer s ! n) (va_mean_global_buffer s ! (n - 1)))))
              (real (n + 1))"
    unfolding incremental_def by (metis (no_types, lifting))+
  from i1 n(2) have b: "va_std_global_buffer s ! 0 = va_map sqrt (va_variance_global_buffer s ! 0)"
    "va_mean_global_buffer s ! 0 = va_buffer s ! 0"
    unfolding incremental_def by (metis (no_types, lifting))+
  from i2 n(4,3) have c: "global_derivative_std s ! n = va_map sqrt (global_derivative_variance s ! n)"
    "global_derivative_mean s ! n =
       va_div (va_add (va_scale (global_derivative_mean s ! (n - 1)) (real n))
                      (derivative_buffer s ! n))
              (real (n + 1))"
    "global_derivative_variance s ! n =
       va_div (va_add (va_scale (global_derivative_variance s ! (n - 1)) (real n))
                      (va_mul (va_sub (derivative_buffer s ! n) (global_derivative_mean s ! n))
                              (va_sub (derivative_buffer s ! n) (global_derivative_mean s ! (n - 1)))))
              (real (n + 1))"
    unfolding incremental_def by (metis (no_types, lifting))+
  from i2 n(5) have d: "global_derivative_std s ! 0 = va_map sqrt (global_derivative_variance s ! 0)"
    "global_derivative_mean s ! 0 = derivative_buffer s ! 0"
    unfolding incremental_def by (metis (no_types, lifting))+
  from s a b c d show ?thesis by blast
qed

text \<open>
  Two readings: the mean goes from (0, 0) to (1, 2).
\<close>

theorem incremental_estimator_witness:
  "\<exists>s. run (init 1.9 5 5) [(ValenceArousal 0 0, 0), (ValenceArousal 2 4, 1)] = Some s \<and>
       va_mean_global_buffer s ! 0 = ValenceArousal 0 0 \<and>
       va_mean_global_buffer s ! 1 = ValenceArousal 1 2 \<and>
       va_variance_global_buffer s ! 1 =
         va_div (va_add (va_scale (va_variance_global_buffer s ! 0) 1)
                        (va_mul (va_sub (ValenceArousal 2 4) (ValenceArousal 1 2))
                                (va_sub (ValenceArousal 2 4) (ValenceArousal 0 0)))) 2 \<and>
       va_std_global_buffer s ! 1 = va_map sqrt (va_variance_global_buffer s ! 1)"
proof -
  let ?xs = "[(ValenceArousal 0 0, 0::real), (ValenceArousal 2 4, 1)]"
  have h: "(1::nat) \<le> 1" "1 < length ?xs" by simp_all
  from incremental_estimator[OF h, of "1.9" 5 5] obtain s where
    s: "run (init 1.9 5 5) ?xs = Some s" "va_buffer s = map fst ?xs"
      "va_mean_global_buffer s ! 0 = va_buffer s ! 0"
      "va_mean_global_buffer s ! 1 =
         va_div (va_add (va_scale (va_mean_global_buffer s ! (1 - 1)) (real 1)) (va_buffer s ! 1))
                (real (1 + 1))"
      "va_variance_global_buffer s ! 1 =
         va_div (va_add (va_scale (va_variance_global_buffer s ! (1 - 1)) (real 1))
                      (va_mul (va_sub (va_buffer s ! 1) (va_mean_global_buffer s ! 1))
                              (va_sub (va_buffer s ! 1) (va_mean_global_buffer s ! (1 - 1)))))
                (real (1 + 1))"
      "va_std_global_buffer s ! 1 = va_map sqrt (va_variance_global_buffer s ! 1)"
    by blast
  have m0: "va_mean_global_buffer s ! 0 = ValenceArousal 0 0"
    using s(2,3) by simp
  have m1: "va_mean_global_buffer s ! 1 = ValenceArousal 1 2"
    using s(2,4) m0 by (simp add: va_div_def va_add_def va_scale_def)
  from s(1,5,6) m0 m1 s(2) show ?thesis
    by (intro exI[of _ s]) simp
qed

subsection \<open>C2\<close>

text \<open>
  C2, as amended: in every session and for every kind, a timestamp appended by a closing
  test lands at an odd position of that kind's timeline counted from 0 (the timeline had
  odd length), the kind is one of the four interval kinds, and the entry just before it
  was appended by an opening test. So no two consecutive entries are both closes. The
  opening tests are not gated, and nothing is said about two consecutive opens.
\<close>

theorem closing_needs_open_interval:
  "\<exists>s. run (init sens w dw) xs = Some s \<and>
       timeline (intersections s) k = map fst (session_crossings (init sens w dw) xs k) \<and>
       (\<forall>i<length (session_crossings (init sens w dw) xs k).
          snd (session_crossings (init sens w dw) xs k ! i) = Closing \<longrightarrow>
          interval_style k \<and> odd i \<and>
          snd (session_crossings (init sens w dw) xs k ! (i - 1)) = Opening)"
proof -
  let ?cs = "session_crossings (init sens w dw) xs k"
  from run_tracks[of sens w dw xs] obtain s where s: "run (init sens w dw) xs = Some s"
    by blast
  have p: "interval_style k \<and> odd i" if "i < length ?cs" "snd (?cs ! i) = Closing" for i
    using session_crossings_parity[OF that] by (simp add: timeline_init)
  have q: "snd (?cs ! (i - 1)) = Opening" if "i < length ?cs" "snd (?cs ! i) = Closing" for i
  proof -
    from p[OF that] have o: "odd i" by simp
    then have "i - 1 < length ?cs" "even (i - 1)" using that(1) by auto
    with p[of "i - 1"] have "snd (?cs ! (i - 1)) \<noteq> Closing" by blast
    then show ?thesis by (cases "snd (?cs ! (i - 1))") simp_all
  qed
  from s run_timeline[OF s, of k] p q show ?thesis
    by (auto simp: timeline_init)
qed

text \<open>
  A session with sensitivity 0 and window 1 in which the valence falls below its
  cumulative mean at 32 and rises above it at 33: one open, one close.
\<close>

theorem closing_needs_open_interval_witness:
  "\<exists>s. run (init 0 1 1)
          [(ValenceArousal 0 0, 30), (ValenceArousal 1 0, 31), (ValenceArousal 0 0, 32),
           (ValenceArousal 1 0, 33)] = Some s \<and>
       timeline (intersections s) local_deviation = [32, 33] \<and>
       session_crossings (init 0 1 1)
          [(ValenceArousal 0 0, 30), (ValenceArousal 1 0, 31), (ValenceArousal 0 0, 32),
           (ValenceArousal 1 0, 33)] local_deviation = [(32, Opening), (33, Closing)] \<and>
       interval_style local_deviation \<and> odd (1::nat)"
proof -
  let ?xs = "[(ValenceArousal 0 0, 30::real), (ValenceArousal 1 0, 31), (ValenceArousal 0 0, 32),
           (ValenceArousal 1 0, 33)]"
  have cs: "session_crossings (init 0 1 1) ?xs local_deviation = [(32, Opening), (33, Closing)]"
    unfolding session_crossings_init_local_deviation by (simp add: replay_eval)
  from closing_needs_open_interval[of 0 1 1 ?xs local_deviation] obtain s where
    s: "run (init 0 1 1) ?xs = Some s"
       "timeline (intersections s) local_deviation =
          map fst (session_crossings (init 0 1 1) ?xs local_deviation)"
       "\<forall>i<length (session_crossings (init 0 1 1) ?xs local_deviation).
          snd (session_crossings (init 0 1 1) ?xs local_deviation ! i) = Closing \<longrightarrow>
          interval_style local_deviation \<and> odd i \<and>
          snd (session_crossings (init 0 1 1) ?xs local_deviation ! (i - 1)) = Opening"
    by blast
  have "interval_style local_deviation \<and> odd (1::nat)"
    using s(3)[unfolded cs, rule_format, of 1] by simp
  with s(1,2) cs show ?thesis by simp
qed

text \<open>
  The claim as stated fails: with sensitivity 0 and window 1 the valences
  0, 1, 0, 1/3, 1, 0 fall below the cumulative mean at 32, meet it exactly at 33 (no
  crossing either way is seen at 33 or 34) and fall below it again at 35. The timeline of
  \<open>local_deviation\<close> is [32, 35], both entries appended by the opening test.
\<close>

theorem two_consecutive_openings:
  "\<exists>s. run (init 0 1 1)
          [(ValenceArousal 0 0, 30), (ValenceArousal 1 0, 31), (ValenceArousal 0 0, 32),
           (ValenceArousal (1 / 3) 0, 33), (ValenceArousal 1 0, 34), (ValenceArousal 0 0, 35)]
          = Some s \<and>
       timeline (intersections s) local_deviation = [32, 35] \<and>
       session_crossings (init 0 1 1)
          [(ValenceArousal 0 0, 30), (ValenceArousal 1 0, 31), (ValenceArousal 0 0, 32),
           (ValenceArousal (1 / 3) 0, 33), (ValenceArousal 1 0, 34), (ValenceArousal 0 0, 35)]
          local_deviation = [(32, Opening), (35, Opening)]"
proof -
  let ?xs = "[(ValenceArousal 0 0, 30::real), (ValenceArousal 1 0, 31), (ValenceArousal 0 0, 32),
           (ValenceArousal (1 / 3) 0, 33), (ValenceArousal 1 0, 34), (ValenceArousal 0 0, 35)]"
  have cs: "session_crossings (init 0 1 1) ?xs local_deviation = [(32, Opening), (35, Opening)]"
    unfolding session_crossings_init_local_deviation by (simp add: replay_eval)
  from run_tracks[of 0 1 1 ?xs] obtain s where s: "run (init 0 1 1) ?xs = Some s" by blast
  from run_timeline[OF s, of local_deviation] cs s show ?thesis
    by (simp add: timeline_init)
qed

subsection \<open>C3\<close>

text \<open>
  C3, as amended: an ingestion with a timestamp below \<open>DELAY = 30\<close> appends no event,
  and it updates every buffer and the counter exactly as the same reading would at any
  other timestamp \<open>t2\<close>: the two resulting states differ in the dictionary of
  intersections only. Detection runs from timestamp 30 on.
\<close>

theorem warm_up_suppression:
  assumes "t < DELAY"
  shows "\<exists>s s'. run (init sens w dw) xs = Some s \<and>
           add_inference_result s va t = Some s' \<and>
           refresh_statistics s va = Some s' \<and>
           intersections s' = intersections s \<and> events s' = events s \<and>
           va_buffer s' = va_buffer s @ [va] \<and>
           number_of_reads s' = number_of_reads s + 1 \<and>
           (\<forall>t2. \<exists>s2. add_inference_result s va t2 = Some s2 \<and>
                        s2\<lparr>intersections := intersections s\<rparr> = s')"
proof -
  from run_tracks[of sens w dw xs] obtain s where
    s: "run (init sens w dw) xs = Some s" "tracks sens w dw (map fst xs) s" by blast
  note ok = tracks_lens_ok[OF s(2)]
  from refresh_statistics_Some[OF ok] obtain s1 where s1: "refresh_statistics s va = Some s1"
    by blast
  note f = refresh_statistics_fields[OF ok s1]
  have a: "add_inference_result s va t = Some s1"
    by (simp add: add_inference_result_def s1 find_intersections_warm_up[OF assms])
  have b: "\<exists>s2. add_inference_result s va t2 = Some s2 \<and> s2\<lparr>intersections := intersections s\<rparr> = s1"
    for t2
    using find_intersections_reset[of s1 t2]
    by (simp add: add_inference_result_def s1 f(8))
  from s(1) a s1 f(6,7,8) b show ?thesis
    by (auto simp: events_def)
qed

text \<open>
  A reading at 29 seconds.
\<close>

theorem warm_up_suppression_witness:
  "(29::real) < DELAY \<and>
   (\<exists>s s'. run (init 1.9 5 5) [(ValenceArousal 0 0, 0)] = Some s \<and>
           add_inference_result s (ValenceArousal 1 1) 29 = Some s' \<and>
           events s' = events s \<and> number_of_reads s' = number_of_reads s + 1)"
proof -
  have h: "(29::real) < DELAY" by (simp add: DELAY_def)
  from warm_up_suppression[OF h, of "1.9" 5 5 "[(ValenceArousal 0 0, 0)]" "ValenceArousal 1 1"]
  show ?thesis using h by blast
qed

text \<open>
  The claim as stated fails at the boundary: at exactly 30 seconds the elapsed time does
  not exceed the delay, and an event is appended.
\<close>

theorem detection_at_exactly_delay:
  "\<not> DELAY < 30 \<and>
   (\<exists>s s'. run (init 0 1 1) [(ValenceArousal 0 0, 0), (ValenceArousal 1 0, 1)] = Some s \<and>
            add_inference_result s (ValenceArousal 0 0) 30 = Some s' \<and>
            events s = [] \<and>
            timeline (intersections s') local_deviation = [30] \<and>
            (30, local_deviation) \<in> set (events s'))"
proof -
  let ?xs = "[(ValenceArousal 0 0, 0::real), (ValenceArousal 1 0, 1)]"
  let ?ys = "?xs @ [(ValenceArousal 0 0, 30)]"
  from run_tracks[of 0 1 1 ?ys] obtain s' where s': "run (init 0 1 1) ?ys = Some s'" by blast
  then obtain s where s: "run (init 0 1 1) ?xs = Some s"
    and a: "add_inference_result s (ValenceArousal 0 0) 30 = Some s'"
    unfolding run_snoc by (auto simp: bind_eq_Some_conv)
  have "intersections s = []"
    using run_warm_up[OF s] by (simp add: DELAY_def init_def)
  then have e: "events s = []" by (simp add: events_def)
  have cs: "session_crossings (init 0 1 1) ?ys local_deviation = [(30, Opening)]"
    unfolding session_crossings_init_local_deviation by (simp add: replay_eval)
  from run_timeline[OF s', of local_deviation] have t: "timeline (intersections s') local_deviation = [30]"
    by (simp only: cs timeline_init) simp
  have "(30, local_deviation) \<in> set (events s')"
    by (rule timeline_events) (simp add: t)
  with s a e t show ?thesis by (auto simp: DELAY_def)
qed

subsection \<open>C4\<close>

text \<open>
  C4: \<^verbatim>\<open>is_intersection\<close> answers True exactly when both lines hold at least two
  samples, the first line was strictly above the second at the sample before the last and
  is strictly below it at the last. With fewer samples the \<^verbatim>\<open>IndexError\<close> is caught and
  the answer is False.
\<close>

theorem is_intersection_iff:
  "is_intersection values_1 values_2 \<longleftrightarrow>
     2 \<le> length values_1 \<and> 2 \<le> length values_2 \<and>
     values_1 ! (length values_1 - 2) > values_2 ! (length values_2 - 2) \<and>
     last values_1 < last values_2"
  by (rule is_intersection_conv)

subsection \<open>C5\<close>


subsection \<open>C6\<close>

text \<open>
  C6: in every session, for every standard-deviation array \<open>std_source\<close> with one row
  per reading (the global and the local buffers are such arrays), row \<open>i\<close> of the
  deviation threshold is the mean of the first \<open>i + 1\<close> readings minus
  \<open>std_source[i] * sensitivity\<close>, row \<open>i\<close> of the sigmoid threshold is the sigmoid of that
  same quantity, and row \<open>i\<close> of the derivative threshold is the mean of the first
  \<open>i + 1\<close> derivative values minus \<open>std_source[i] * sensitivity\<close>; the sigmoid is
  \<open>2 / (1 + exp (-2.2 x)) - 1\<close>.
\<close>

theorem threshold_curves:
  assumes "i < length xs"
  shows "\<exists>s. run (init sens w dw) xs = Some s \<and>
     va_buffer s = map fst xs \<and>
     length (va_std_global_buffer s) = length xs \<and>
     length (va_std_local_buffer s) = length xs \<and>
     length (global_derivative_std s) = length xs \<and>
     length (local_derivative_std s) = length xs \<and>
     (\<forall>std_source. length std_source = length xs \<longrightarrow>
        deviation_threshold s std_source ! i =
          va_sub (np_mean (take (Suc i) (va_buffer s))) (va_scale (std_source ! i) sens) \<and>
        sigmoid_threshold s std_source ! i =
          va_map sigmoid
            (va_sub (np_mean (take (Suc i) (va_buffer s))) (va_scale (std_source ! i) sens)) \<and>
        derivative_threshold s std_source ! i =
          va_sub (np_mean (take (Suc i) (derivative_buffer s))) (va_scale (std_source ! i) sens)) \<and>
     sigmoid x = 2 / (1 + exp (- 2.2 * x)) - 1"
proof -
  from run_tracks[of sens w dw xs] obtain s where
    s: "run (init sens w dw) xs = Some s" "tracks sens w dw (map fst xs) s" by blast
  from s(2) have f: "va_buffer s = map fst xs" "sensitivity s = sens"
    "va_mean_local_buffer s = cum np_mean (va_buffer s)"
    "derivative_buffer s = cum diff_last (map fst xs)"
    "local_derivative_mean s = cum np_mean (derivative_buffer s)"
    "length (va_std_global_buffer s) = length xs"
    "length (va_std_local_buffer s) = length xs"
    "length (global_derivative_std s) = length xs"
    "length (local_derivative_std s) = length xs"
    by (simp_all add: tracks_def)
  have l: "i < length (va_buffer s)" "i < length (derivative_buffer s)"
    using assms by (simp_all add: f(1,4))
  have t: "deviation_threshold s std ! i =
          va_sub (np_mean (take (Suc i) (va_buffer s))) (va_scale (std ! i) sens) \<and>
        sigmoid_threshold s std ! i =
          va_map sigmoid
            (va_sub (np_mean (take (Suc i) (va_buffer s))) (va_scale (std ! i) sens)) \<and>
        derivative_threshold s std ! i =
          va_sub (np_mean (take (Suc i) (derivative_buffer s))) (va_scale (std ! i) sens)"
    if "length std = length xs" for std
    using that assms l
    by (simp add: deviation_threshold_def sigmoid_threshold_def derivative_threshold_def
        f(2,3,5) cum_nth f(1,4))
  have "sigmoid x = 2 / (1 + exp (- 2.2 * x)) - 1"
    by (simp add: sigmoid_def)
  with s(1) f(1,6-9) t show ?thesis by blast
qed

text \<open>
  One reading (1, 2), sensitivity 2, a standard deviation (3, 4).
\<close>

theorem threshold_curves_witness:
  "\<exists>s. run (init 2 5 5) [(ValenceArousal 1 2, 0)] = Some s \<and>
       deviation_threshold s [ValenceArousal 3 4] ! 0 = ValenceArousal (- 5) (- 6) \<and>
       sigmoid_threshold s [ValenceArousal 3 4] ! 0 = va_map sigmoid (ValenceArousal (- 5) (- 6))"
proof -
  let ?xs = "[(ValenceArousal 1 2, 0::real)]"
  have h: "0 < length ?xs" by simp
  from threshold_curves[OF h, of 2 5 5] obtain s where
    s: "run (init 2 5 5) ?xs = Some s" "va_buffer s = map fst ?xs"
    and t: "\<forall>std_source. length std_source = length ?xs \<longrightarrow>
        deviation_threshold s std_source ! 0 =
          va_sub (np_mean (take (Suc 0) (va_buffer s))) (va_scale (std_source ! 0) 2) \<and>
        sigmoid_threshold s std_source ! 0 =
          va_map sigmoid
            (va_sub (np_mean (take (Suc 0) (va_buffer s))) (va_scale (std_source ! 0) 2)) \<and>
        derivative_threshold s std_source ! 0 =
          va_sub (np_mean (take (Suc 0) (derivative_buffer s))) (va_scale (std_source ! 0) 2)"
    by blast
  from t[rule_format, of "[ValenceArousal 3 4]"] s show ?thesis
    by (simp add: np_mean_def va_sub_def va_scale_def)
qed

subsection \<open>C7\<close>

text \<open>
  C7: in every session the derivative series starts with (0, 0) and at every step
  \<open>n \<ge> 1\<close> holds the reading \<open>n\<close> minus the reading \<open>n - 1\<close>; in any state
  \<^verbatim>\<open>derivative\<close> returns a value, (0, 0) when fewer than two readings are buffered.
\<close>

theorem derivative_series:
  assumes "1 \<le> n" and "n < length xs"
  shows "\<exists>s. run (init sens w dw) xs = Some s \<and>
           length (derivative_buffer s) = length xs \<and>
           derivative_buffer s ! 0 = ValenceArousal 0 0 \<and>
           derivative_buffer s ! n = va_sub (fst (xs ! n)) (fst (xs ! (n - 1))) \<and>
           derivative s0 =
             Some (if length (va_buffer s0) < 2 then ValenceArousal 0 0
                   else va_sub (last (va_buffer s0)) (va_buffer s0 ! (length (va_buffer s0) - 2)))"
proof -
  from run_tracks[of sens w dw xs] obtain s where
    s: "run (init sens w dw) xs = Some s" "tracks sens w dw (map fst xs) s" by blast
  then have d: "derivative_buffer s = cum diff_last (map fst xs)"
    by (simp add: tracks_def)
  from assms have l: "0 < length (map fst xs)" "n < length (map fst xs)" by auto
  have "derivative_buffer s ! 0 = ValenceArousal 0 0"
    by (simp add: d cum_nth[OF l(1)] diff_last_take[OF l(1)])
  moreover have "derivative_buffer s ! n = va_sub (fst (xs ! n)) (fst (xs ! (n - 1)))"
    using assms by (simp add: d cum_nth[OF l(2)] diff_last_take[OF l(2)])
  moreover have "derivative s0 =
             Some (if length (va_buffer s0) < 2 then ValenceArousal 0 0
                   else va_sub (last (va_buffer s0)) (va_buffer s0 ! (length (va_buffer s0) - 2)))"
    by (simp add: derivative_Some diff_last_def)
  ultimately show ?thesis
    by (simp add: s(1) d)
qed

text \<open>
  Readings (1, 2) and (3, 5).
\<close>

theorem derivative_series_witness:
  "\<exists>s. run (init 1.9 5 5) [(ValenceArousal 1 2, 0), (ValenceArousal 3 5, 1)] = Some s \<and>
           length (derivative_buffer s) = 2 \<and>
           derivative_buffer s ! 0 = ValenceArousal 0 0 \<and>
           derivative_buffer s ! 1 = ValenceArousal 2 3 \<and>
           derivative (init 1.9 5 5) = Some (ValenceArousal 0 0)"
  using derivative_series[of 1 "[(ValenceArousal 1 2, 0), (ValenceArousal 3 5, 1)]" "1.9" 5 5
       "init 1.9 5 5"]
  by (simp add: va_sub_def init_va_buffer numeral_2_eq_2)

subsection \<open>C8\<close>

text \<open>
  C8: for positive window sizes, the moving average recorded at step \<open>n\<close> is the sum of
  the last \<open>min (n + 1) w\<close> readings up to and including reading \<open>n\<close>, divided by their
  number; the derivative moving average is the same over the derivative series with its
  own window. \<^verbatim>\<open>Buffer.last\<close> is modelled from the spec.
\<close>

theorem moving_average_window:
  assumes "0 < w" and "0 < dw" and "n < length xs"
  shows "\<exists>s. run (init sens w dw) xs = Some s \<and>
     va_moving_average_buf s ! n =
       ValenceArousal
         ((\<Sum>i = Suc n - min (Suc n) w..<Suc n. valence (fst (xs ! i))) / real (min (Suc n) w))
         ((\<Sum>i = Suc n - min (Suc n) w..<Suc n. arousal (fst (xs ! i))) / real (min (Suc n) w)) \<and>
     derivative_moving_average_buf s ! n =
       ValenceArousal
         ((\<Sum>i = Suc n - min (Suc n) dw..<Suc n. valence (derivative_buffer s ! i))
            / real (min (Suc n) dw))
         ((\<Sum>i = Suc n - min (Suc n) dw..<Suc n. arousal (derivative_buffer s ! i))
            / real (min (Suc n) dw))"
proof -
  from run_tracks[of sens w dw xs] obtain s where
    s: "run (init sens w dw) xs = Some s" "tracks sens w dw (map fst xs) s" by blast
  from s(2) have f: "va_moving_average_buf s = cum (\<lambda>ys. np_mean (Buffer_last ys w)) (map fst xs)"
    "derivative_buffer s = cum diff_last (map fst xs)"
    "derivative_moving_average_buf s =
       cum (\<lambda>ds. np_mean (Buffer_last ds dw)) (derivative_buffer s)"
    by (simp_all add: tracks_def)
  have l: "n < length (map fst xs)" "n < length (derivative_buffer s)"
    using assms(3) by (simp_all add: f(2))
  have i: "(\<Sum>i = Suc n - min (Suc n) w..<Suc n. g (map fst xs ! i)) =
           (\<Sum>i = Suc n - min (Suc n) w..<Suc n. g (fst (xs ! i)))" for g :: "ValenceArousal \<Rightarrow> real"
    using assms(3) by (intro sum.cong) simp_all
  have "va_moving_average_buf s ! n =
       ValenceArousal
         ((\<Sum>i = Suc n - min (Suc n) w..<Suc n. valence (fst (xs ! i))) / real (min (Suc n) w))
         ((\<Sum>i = Suc n - min (Suc n) w..<Suc n. arousal (fst (xs ! i))) / real (min (Suc n) w))"
    unfolding f(1) cum_nth[OF l(1)] np_mean_window[OF l(1)] i ..
  moreover have "derivative_moving_average_buf s ! n =
       ValenceArousal
         ((\<Sum>i = Suc n - min (Suc n) dw..<Suc n. valence (derivative_buffer s ! i))
            / real (min (Suc n) dw))
         ((\<Sum>i = Suc n - min (Suc n) dw..<Suc n. arousal (derivative_buffer s ! i))
            / real (min (Suc n) dw))"
    unfolding f(3) cum_nth[OF l(2)] np_mean_window[OF l(2)] ..
  ultimately show ?thesis using s(1) by blast
qed

text \<open>
  Window 2, readings with valences 1, 2, 6 and arousals 0, 0, 2.
\<close>

theorem moving_average_window_witness:
  "\<exists>s. run (init 1.9 2 2) [(ValenceArousal 1 0, 0), (ValenceArousal 2 0, 1), (ValenceArousal 6 2, 2)]
         = Some s \<and>
       va_moving_average_buf s ! 2 = ValenceArousal 4 1"
proof -
  let ?xs = "[(ValenceArousal 1 0, 0::real), (ValenceArousal 2 0, 1), (ValenceArousal 6 2, 2)]"
  have h: "(0::nat) < 2" "2 < length ?xs" by simp_all
  from moving_average_window[OF h(1) h(1) h(2), of "1.9"] obtain s where
    "run (init 1.9 2 2) ?xs = Some s"
    "va_moving_average_buf s ! 2 =
       ValenceArousal
         ((\<Sum>i = Suc 2 - min (Suc 2) 2..<Suc 2. valence (fst (?xs ! i))) / real (min (Suc 2) (2::nat)))
         ((\<Sum>i = Suc 2 - min (Suc 2) 2..<Suc 2. arousal (fst (?xs ! i))) / real (min (Suc 2) (2::nat)))"
    by blast
  then show ?thesis
    by (simp add: eval_nat_numeral)
qed

subsection \<open>C9\<close>

text \<open>
  C9: two sessions with the same timestamps and the same valences, whatever their
  arousals, end with the same \<^verbatim>\<open>events\<close>.
\<close>

theorem events_independent_of_arousal:
  assumes "map snd xs = map snd ys"
    and "map (\<lambda>x. valence (fst x)) xs = map (\<lambda>x. valence (fst x)) ys"
  shows "\<exists>s s'. run (init sens w dw) xs = Some s \<and> run (init sens w dw) ys = Some s' \<and>
           events s = events s'"
proof -
  from veq_run[OF lens_ok_init lens_ok_init veq_refl_init assms]
  obtain r r' where "run (init sens w dw) xs = Some r" "run (init sens w dw) ys = Some r'"
    "veq r r'" by blast
  then show ?thesis by (auto simp: events_def veq_def)
qed

text \<open>
  Two sessions of two readings that differ in arousal only.
\<close>

theorem events_independent_of_arousal_witness:
  "\<exists>s s'. run (init 1.9 5 5) [(ValenceArousal 0 1, 0), (ValenceArousal 1 2, 31)] = Some s \<and>
           run (init 1.9 5 5) [(ValenceArousal 0 5, 0), (ValenceArousal 1 (- 3), 31)] = Some s' \<and>
           events s = events s'"
  by (rule events_independent_of_arousal) simp_all

subsection \<open>C10\<close>

text \<open>
  C10: one ingestion extends the timeline of a kind by nothing or by the one timestamp
  of the call; one call of \<^verbatim>\<open>find_intersections\<close> in any state appends at most one entry
  per kind; the crossing test cannot succeed in both directions on the same two lines; and
  for the two point kinds the only append is the one of the opening test.
\<close>

theorem at_most_one_append_per_kind:
  "\<exists>s s'. run (init sens w dw) xs = Some s \<and> add_inference_result s va t = Some s' \<and>
     (timeline (intersections s') k = timeline (intersections s) k \<or>
      timeline (intersections s') k = timeline (intersections s) k @ [t]) \<and>
     length (timeline (intersections (find_intersections s0 t0)) k)
       \<le> length (timeline (intersections s0) k) + 1 \<and>
     \<not> (is_intersection a b \<and> is_intersection b a) \<and>
     crossings s0 t0 global_rapid_deprecation =
       (if t0 < DELAY then []
        else if is_intersection (map valence (derivative_moving_average_buf s0))
                  (map valence (derivative_threshold s0 (global_derivative_std s0)))
             then [(t0, Opening)] else []) \<and>
     crossings s0 t0 local_rapid_deprecation =
       (if t0 < DELAY then []
        else if is_intersection (map valence (derivative_moving_average_buf s0))
                  (map valence (derivative_threshold s0 (local_derivative_std s0)))
             then [(t0, Opening)] else [])"
proof -
  from run_tracks[of sens w dw xs] obtain s where
    s: "run (init sens w dw) xs = Some s" "tracks sens w dw (map fst xs) s" by blast
  from tracks_refresh[OF s(2), of va t] obtain s1 where
    s1: "refresh_statistics s va = Some s1" by blast
  have a: "add_inference_result s va t = Some (find_intersections s1 t)"
    by (simp add: add_inference_result_def s1)
  have c: "map fst (crossings s1 t k) = [] \<or> map fst (crossings s1 t k) = [t]"
    using is_intersection_exclusive[of "data_line s1 k" "control_line s1 k"]
    by (auto simp: crossings_def Let_def)
  have "timeline (intersections (find_intersections s1 t)) k = timeline (intersections s) k \<or>
      timeline (intersections (find_intersections s1 t)) k = timeline (intersections s) k @ [t]"
    using c by (auto simp: find_intersections_timeline refresh_statistics_intersections[OF s1])
  moreover have "length (timeline (intersections (find_intersections s0 t0)) k)
       \<le> length (timeline (intersections s0) k) + 1"
    using crossings_le1[of s0 t0 k] by (simp add: find_intersections_timeline)
  moreover have "crossings s0 t0 global_rapid_deprecation =
       (if t0 < DELAY then []
        else if is_intersection (map valence (derivative_moving_average_buf s0))
                  (map valence (derivative_threshold s0 (global_derivative_std s0)))
             then [(t0, Opening)] else [])"
    "crossings s0 t0 local_rapid_deprecation =
       (if t0 < DELAY then []
        else if is_intersection (map valence (derivative_moving_average_buf s0))
                  (map valence (derivative_threshold s0 (local_derivative_std s0)))
             then [(t0, Opening)] else [])"
    by (simp_all add: crossings_def Let_def interval_style_def data_line_def control_line_def)
  ultimately show ?thesis
    using s(1) a is_intersection_exclusive[of a b] by blast
qed

end
